theory Spec2Isabelle
  imports
    Main
    "HOL-Library.Char_ord"
    "HOL-Library.List_Lexorder"
    "HOL-Library.Product_Lexorder"
    "HOL-Library.Option_ord"
begin

section \<open>Calendar dates and the operations of the date library\<close>

text \<open>
  The program handles dates through the moment library. A moment object is modelled by its
  local calendar date and the milliseconds elapsed since local midnight. Months are counted
  1..12 as in the formatted strings (\<^verbatim>\<open>MM\<close>); the library's own 0-based month index is
  \<open>month - 1\<close>. All objects the program builds hold a valid calendar date.
\<close>

datatype date = Date (year: nat) (month: nat) (day: nat)

datatype moment = Moment (date_of: date) (ms_of: nat)

text \<open>\<^verbatim>\<open>isLeapYear(year)\<close>: \<^verbatim>\<open>(year % 4 === 0 && year % 100 !== 0) || year % 400 === 0\<close>.\<close>

definition isLeapYear :: "nat \<Rightarrow> bool" where
  "isLeapYear y = ((y mod 4 = 0 \<and> y mod 100 \<noteq> 0) \<or> y mod 400 = 0)"

text \<open>
  \<^verbatim>\<open>daysInMonth(year, month)\<close>:
  \<^verbatim>\<open>modMonth === 1 ? (isLeapYear(year) ? 29 : 28) : 31 - ((modMonth % 7) % 2)\<close>,
  with \<open>modMonth = m - 1\<close>.
\<close>

definition daysInMonth :: "nat \<Rightarrow> nat \<Rightarrow> nat" where
  "daysInMonth y m =
     (if m - 1 = 1 then (if isLeapYear y then 29 else 28) else 31 - (((m - 1) mod 7) mod 2))"

definition valid_date :: "date \<Rightarrow> bool" where
  "valid_date d =
     (1 \<le> month d \<and> month d \<le> 12 \<and> 1 \<le> day d \<and> day d \<le> daysInMonth (year d) (month d))"

definition valid_moment :: "moment \<Rightarrow> bool" where
  "valid_moment t = (valid_date (date_of t) \<and> ms_of t < 86400000)"

text \<open>
  The number of a day in the proleptic Gregorian calendar: the days of the years before
  \<open>y\<close>, the days of the months before \<open>m\<close>, and the day of the month. Two local
  midnights are \<open>86400000\<close> milliseconds times the difference of their day numbers apart.
\<close>

definition days_before_year :: "nat \<Rightarrow> nat" where
  "days_before_year y = 365 * y + (y + 3) div 4 - (y + 99) div 100 + (y + 399) div 400"

definition days_before_month :: "nat \<Rightarrow> nat \<Rightarrow> nat" where
  "days_before_month y m = sum_list (map (daysInMonth y) [1..<m])"

definition day_number :: "date \<Rightarrow> nat" where
  "day_number d = days_before_year (year d) + days_before_month (year d) (month d) + day d"

definition local_ms :: "moment \<Rightarrow> int" where
  "local_ms t = int (day_number (date_of t)) * 86400000 + int (ms_of t)"

text \<open>
  \<^verbatim>\<open>absFloor\<close> of the quotient \<open>n / d\<close> (\<open>d\<close> positive): \<^verbatim>\<open>Math.ceil\<close> for a
  negative number, \<^verbatim>\<open>Math.floor\<close> otherwise, that is, rounding towards zero.
\<close>

definition absFloor :: "int \<Rightarrow> int \<Rightarrow> int" where
  "absFloor n d = (if n < 0 then - ((- n) div d) else n div d)"

text \<open>
  \<^verbatim>\<open>a.diff(b, 'days')\<close>: the difference of the two instants, corrected by the difference
  of their UTC offsets (so it is the difference of the local times), divided by
  \<^verbatim>\<open>864e5\<close> and rounded towards zero.
\<close>

definition diff_days :: "moment \<Rightarrow> moment \<Rightarrow> int" where
  "diff_days a b = absFloor (local_ms a - local_ms b) 86400000"

text \<open>\<^verbatim>\<open>a.isBefore(b, 'day')\<close>: the end of \<open>a\<close>'s day is before the instant \<open>b\<close>.\<close>

definition endOf_day :: "moment \<Rightarrow> moment" where
  "endOf_day a = Moment (date_of a) 86399999"

definition isBefore_day :: "moment \<Rightarrow> moment \<Rightarrow> bool" where
  "isBefore_day a b = (local_ms (endOf_day a) < local_ms b)"

text \<open>
  \<^verbatim>\<open>m.year(y)\<close>, the year setter: a 29 February of a leap year is set together with the
  month and the last day of February of the new year; every other date keeps its month
  and day.
\<close>

definition set_year :: "moment \<Rightarrow> nat \<Rightarrow> moment" where
  "set_year t y =
     (if isLeapYear (year (date_of t)) \<and> month (date_of t) = 2 \<and> day (date_of t) = 29
      then Moment (Date y 2 (daysInMonth y 2)) (ms_of t)
      else Moment (Date y (month (date_of t)) (day (date_of t))) (ms_of t))"

text \<open>
  \<^verbatim>\<open>m.add(1, 'year')\<close>: twelve months later, the day of the month cut down to the length
  of the month reached.
\<close>

definition add_year :: "moment \<Rightarrow> moment" where
  "add_year t =
     Moment (Date (year (date_of t) + 1) (month (date_of t))
               (min (day (date_of t)) (daysInMonth (year (date_of t) + 1) (month (date_of t)))))
            (ms_of t)"

text \<open>\<^verbatim>\<open>m.add(1, 'day')\<close>: the next calendar day at the same time of day.\<close>

definition add_day :: "moment \<Rightarrow> moment" where
  "add_day t =
     (if day (date_of t) < daysInMonth (year (date_of t)) (month (date_of t))
      then Moment (Date (year (date_of t)) (month (date_of t)) (day (date_of t) + 1)) (ms_of t)
      else if month (date_of t) < 12
      then Moment (Date (year (date_of t)) (month (date_of t) + 1) 1) (ms_of t)
      else Moment (Date (year (date_of t) + 1) 1 1) (ms_of t))"

text \<open>
  \<^verbatim>\<open>moment(s)\<close> for a stored \<^verbatim>\<open>YYYY-MM-DD\<close> string: local midnight of that date.
\<close>

definition moment_of_date :: "date \<Rightarrow> moment" where
  "moment_of_date d = Moment d 0"

text \<open>
  \<^verbatim>\<open>format('MM-DD')\<close> and SQLite's \<^verbatim>\<open>strftime('%m-%d', d)\<close> give the two-digit month and
  day of a valid date; the program only compares these strings for equality, which is
  equality of the pair of numbers.
\<close>

definition format_MM_DD :: "date \<Rightarrow> nat \<times> nat" where
  "format_MM_DD d = (month d, day d)"

section \<open>CommandParser: next birthday and days until it\<close>

text \<open>
  \<^verbatim>\<open>getNextBirthdayDate(birthDate)\<close>, with the value of \<^verbatim>\<open>moment()\<close> passed as \<open>now\<close>.
\<close>

definition getNextBirthdayDate :: "moment \<Rightarrow> moment \<Rightarrow> moment" where
  "getNextBirthdayDate now birthDate =
     (let thisYear = year (date_of now);
          nextBirthday = set_year birthDate thisYear
      in if isBefore_day nextBirthday now then add_year nextBirthday else nextBirthday)"

text \<open>
  The day count of \<^verbatim>\<open>handleMyBirthday\<close> and \<^verbatim>\<open>handleListBirthdays\<close>:
  \<^verbatim>\<open>nextBirthday.diff(moment(), 'days')\<close> for a date taken at local midnight.
\<close>

definition daysUntil :: "moment \<Rightarrow> date \<Rightarrow> int" where
  "daysUntil now target = diff_days (moment_of_date target) now"

text \<open>The three replies \<^verbatim>\<open>handleMyBirthday\<close> chooses between for a stored birthday.\<close>

datatype my_birthday_reply = HappyBirthday | TomorrowIsYourBirthday | DaysUntilNext int

definition handleMyBirthday_reply :: "moment \<Rightarrow> date \<Rightarrow> my_birthday_reply" where
  "handleMyBirthday_reply now birth_date =
     (let date = moment_of_date birth_date;
          nextBirthday = getNextBirthdayDate now date;
          daysUntil = diff_days nextBirthday now
      in if daysUntil = 0 then HappyBirthday
         else if daysUntil = 1 then TomorrowIsYourBirthday
         else DaysUntilNext daysUntil)"

section \<open>The database\<close>

text \<open>
  The tables of \<^verbatim>\<open>init.sql\<close> as lists of rows in insertion order. Of \<^verbatim>\<open>users\<close> and
  \<^verbatim>\<open>groups\<close> the columns that the queries below read are kept; \<^verbatim>\<open>birthdays\<close> and
  \<^verbatim>\<open>reminders\<close> have all their columns. \<^verbatim>\<open>CURRENT_TIMESTAMP\<close> is a number passed in.
  SQLite does not enforce the foreign keys (the connection never switches them on); it does
  enforce the primary keys.
\<close>

type_synonym timestamp = nat

record user_row =
  u_phone_number :: string
  u_name :: string

record group_row =
  g_group_id :: string
  g_group_name :: string
  g_bot_active :: bool

record birthday_row =
  b_id :: string
  b_phone_number :: string
  b_birth_date :: date
  b_group_id :: string
  b_created_at :: timestamp
  b_updated_at :: timestamp

record reminder_row =
  r_id :: string
  r_birthday_id :: string
  r_reminder_date :: date
  r_sent :: bool
  r_sent_at :: "timestamp option"

record database =
  users :: "user_row list"
  groups :: "group_row list"
  birthdays :: "birthday_row list"
  reminders :: "reminder_row list"

text \<open>The primary keys of the four tables.\<close>

definition primary_keys :: "database \<Rightarrow> bool" where
  "primary_keys db =
     (distinct (map u_phone_number (users db)) \<and> distinct (map g_group_id (groups db)) \<and>
      distinct (map b_id (birthdays db)) \<and> distinct (map r_id (reminders db)))"

text \<open>
  What a rejected promise or a thrown exception carries: a call of something that is not a
  function, a constraint violation reported by SQLite, a failure of the WhatsApp client.
\<close>

datatype js_error = TypeError | SqliteConstraint | SendError

text \<open>
  \<^verbatim>\<open>LEFT JOIN t ON cond\<close>: the matching rows of \<open>t\<close>, or one row of NULLs when
  there is none.
\<close>

definition left_join :: "('a \<Rightarrow> bool) \<Rightarrow> 'a list \<Rightarrow> 'a option list" where
  "left_join cond t = (case filter cond t of [] \<Rightarrow> [None] | m # ms \<Rightarrow> map Some (m # ms))"

text \<open>\<^verbatim>\<open>g.bot_active = true\<close> on a joined row; NULL is not true.\<close>

definition bot_active_is_true :: "group_row option \<Rightarrow> bool" where
  "bot_active_is_true g = (case g of None \<Rightarrow> False | Some g' \<Rightarrow> g_bot_active g')"

section \<open>ReminderRepository\<close>

text \<open>
  \<^verbatim>\<open>createReminder(birthdayId, reminderDate)\<close>. The value of \<^verbatim>\<open>crypto.randomUUID()\<close> is the
  first argument. \<^verbatim>\<open>database.run\<close> resolves to the number of rows changed (the row id it
  also reports is not modelled) or rejects with the constraint violation.
\<close>

definition createReminder ::
  "string \<Rightarrow> string \<Rightarrow> date \<Rightarrow> database \<Rightarrow> js_error + (nat \<times> database)" where
  "createReminder reminderId birthdayId reminderDate db =
     (if reminderId \<in> set (map r_id (reminders db)) then Inl SqliteConstraint
      else Inr (1, db\<lparr>reminders := reminders db @
             [\<lparr>r_id = reminderId, r_birthday_id = birthdayId, r_reminder_date = reminderDate,
               r_sent = False, r_sent_at = None\<rparr>]\<rparr>))"

text \<open>
  \<^verbatim>\<open>markReminderSent(reminderId)\<close>:
  \<^verbatim>\<open>UPDATE reminders SET sent = true, sent_at = CURRENT_TIMESTAMP WHERE id = ?\<close>.
\<close>

definition markReminderSent :: "timestamp \<Rightarrow> string \<Rightarrow> database \<Rightarrow> nat \<times> database" where
  "markReminderSent now reminderId db =
     (length (filter (\<lambda>r. r_id r = reminderId) (reminders db)),
      db\<lparr>reminders :=
           map (\<lambda>r. if r_id r = reminderId then r\<lparr>r_sent := True, r_sent_at := Some now\<rparr> else r)
             (reminders db)\<rparr>)"

text \<open>
  The invariant of the data model on \<^verbatim>\<open>sent_at\<close>: it is set exactly in the rows with
  \<open>sent = true\<close>.
\<close>

definition sent_consistent :: "database \<Rightarrow> bool" where
  "sent_consistent db = list_all (\<lambda>r. r_sent r = (r_sent_at r \<noteq> None)) (reminders db)"

text \<open>
  A row of \<^verbatim>\<open>getPendingReminders\<close>: \<^verbatim>\<open>r.*, b.phone_number, b.birth_date, b.group_id,
  u.name, g.group_name\<close>.
\<close>

record pending_row =
  p_id :: string
  p_birthday_id :: string
  p_reminder_date :: date
  p_sent :: bool
  p_sent_at :: "timestamp option"
  p_phone_number :: string
  p_birth_date :: date
  p_group_id :: string
  p_name :: "string option"
  p_group_name :: "string option"

definition pending_row_of ::
  "reminder_row \<Rightarrow> birthday_row \<Rightarrow> user_row option \<Rightarrow> group_row option \<Rightarrow> pending_row" where
  "pending_row_of r b u g =
     \<lparr>p_id = r_id r, p_birthday_id = r_birthday_id r, p_reminder_date = r_reminder_date r,
      p_sent = r_sent r, p_sent_at = r_sent_at r, p_phone_number = b_phone_number b,
      p_birth_date = b_birth_date b, p_group_id = b_group_id b,
      p_name = map_option u_name u, p_group_name = map_option g_group_name g\<rparr>"

text \<open>
  \<^verbatim>\<open>getPendingReminders(date = null)\<close>. The joins and the \<^verbatim>\<open>WHERE\<close> clause give the rows;
  \<^verbatim>\<open>ORDER BY g.group_name, u.name\<close> sorts them (NULL first, strings by their bytes). Rows
  with equal keys are kept in the order of the join.
\<close>

definition pending_rows :: "date \<Rightarrow> database \<Rightarrow> pending_row list" where
  "pending_rows reminderDate db =
     [pending_row_of r b u g.
        r \<leftarrow> reminders db,
        b \<leftarrow> filter (\<lambda>b. r_birthday_id r = b_id b) (birthdays db),
        u \<leftarrow> left_join (\<lambda>u. b_phone_number b = u_phone_number u) (users db),
        g \<leftarrow> left_join (\<lambda>g. b_group_id b = g_group_id g) (groups db),
        r_reminder_date r = reminderDate \<and> r_sent r = False \<and> bot_active_is_true g]"

definition getPendingReminders :: "moment \<Rightarrow> date option \<Rightarrow> database \<Rightarrow> pending_row list" where
  "getPendingReminders now date db =
     (let reminderDate = (case date of Some d \<Rightarrow> d | None \<Rightarrow> date_of now)
      in sort_key (\<lambda>p. (p_group_name p, p_name p)) (pending_rows reminderDate db))"

text \<open>\<^verbatim>\<open>reminderExists(birthdayId, reminderDate)\<close>.\<close>

definition reminderExists :: "string \<Rightarrow> date \<Rightarrow> database \<Rightarrow> bool" where
  "reminderExists birthdayId reminderDate db =
     list_ex (\<lambda>r. r_birthday_id r = birthdayId \<and> r_reminder_date r = reminderDate) (reminders db)"

text \<open>
  \<^verbatim>\<open>createTodaysReminders()\<close>. The query selects the ids of the birthdays whose month and
  day are today's, whose group is active, and for which no reminder dated today exists; the
  loop creates a reminder dated today for each. \<open>uuid k\<close> is the \<open>k\<close>-th random UUID
  drawn. A rejected \<^verbatim>\<open>createReminder\<close> ends the loop with the rows created so far in the
  table. The query has no \<^verbatim>\<open>ORDER BY\<close>, so SQLite may return the selected ids in another
  order than the order of the table taken here; which ids are selected does not depend on
  it, and no statement below depends on the order.
\<close>

definition birthdays_to_remind :: "date \<Rightarrow> database \<Rightarrow> string list" where
  "birthdays_to_remind today db =
     [b_id b.
        b \<leftarrow> birthdays db,
        g \<leftarrow> filter (\<lambda>g. b_group_id b = g_group_id g) (groups db),
        format_MM_DD (b_birth_date b) = format_MM_DD today \<and> g_bot_active g = True \<and>
        \<not> list_ex (\<lambda>r. r_birthday_id r = b_id b \<and> r_reminder_date r = today) (reminders db)]"

fun create_each ::
  "(nat \<Rightarrow> string) \<Rightarrow> nat \<Rightarrow> date \<Rightarrow> string list \<Rightarrow> nat list \<Rightarrow> database \<Rightarrow>
     (js_error + nat list) \<times> database" where
  "create_each uuid k today [] results db = (Inr results, db)"
| "create_each uuid k today (birthday_id # rest) results db =
     (case createReminder (uuid k) birthday_id today db of
        Inl e \<Rightarrow> (Inl e, db)
      | Inr (result, db') \<Rightarrow> create_each uuid (k + 1) today rest (results @ [result]) db')"

definition createTodaysReminders ::
  "moment \<Rightarrow> (nat \<Rightarrow> string) \<Rightarrow> database \<Rightarrow> (js_error + nat list) \<times> database" where
  "createTodaysReminders now uuid db =
     (let today = date_of now
      in create_each uuid 0 today (birthdays_to_remind today db) [] db)"

section \<open>CronScheduler\<close>

text \<open>
  The scheduler calls two methods on the exported \<^verbatim>\<open>ReminderRepository\<close> instance that the
  class does not define: \<^verbatim>\<open>markReminderAsSent\<close> (the class has \<^verbatim>\<open>markReminderSent\<close>) and
  \<^verbatim>\<open>createRemindersForDate\<close> (the class has \<^verbatim>\<open>createTodaysReminders\<close>, without a
  parameter). Nothing adds them to the object, so each of these property reads gives
  \<^verbatim>\<open>undefined\<close> and the call throws a \<^verbatim>\<open>TypeError\<close> whatever the arguments and the
  database are.
\<close>

definition markReminderAsSent :: "string \<Rightarrow> database \<Rightarrow> js_error + (nat \<times> database)" where
  "markReminderAsSent reminderId db = Inl TypeError"

definition createRemindersForDate :: "nat \<times> nat \<Rightarrow> database \<Rightarrow> js_error + (nat \<times> database)" where
  "createRemindersForDate monthDay db = Inl TypeError"

text \<open>
  \<^verbatim>\<open>createBirthdayMessage(name, phoneNumber)\<close>: one of four texts, each tagging the phone
  number; the index drawn with \<^verbatim>\<open>Math.random\<close> is an argument.
\<close>

datatype message = BirthdayMessage nat string

definition createBirthdayMessage :: "nat \<Rightarrow> string option \<Rightarrow> string \<Rightarrow> message" where
  "createBirthdayMessage randomIndex name phoneNumber = BirthdayMessage randomIndex phoneNumber"

text \<open>
  The environment of one run of the daily check: whether the \<open>k\<close>-th call of
  \<^verbatim>\<open>whatsappClient.sendMessage\<close> delivers the message to the chat or throws, and the index
  drawn for the \<open>k\<close>-th message.
\<close>

record environment =
  sendMessage_ok :: "nat \<Rightarrow> string \<Rightarrow> message \<Rightarrow> bool"
  randomIndex :: "nat \<Rightarrow> nat"

text \<open>
  \<^verbatim>\<open>processBirthdayReminder(reminder)\<close>, as the \<open>k\<close>-th of a run. It returns the database,
  the messages delivered (chat and message) and the error its \<^verbatim>\<open>catch\<close> logged, if any.
\<close>

definition processBirthdayReminder ::
  "environment \<Rightarrow> nat \<Rightarrow> pending_row \<Rightarrow> database \<Rightarrow>
     database \<times> (string \<times> message) list \<times> js_error option" where
  "processBirthdayReminder env k reminder db =
     (let message = createBirthdayMessage (randomIndex env k) (p_name reminder) (p_phone_number reminder)
      in if sendMessage_ok env k (p_group_id reminder) message
         then (case markReminderAsSent (p_id reminder) db of
                 Inl e \<Rightarrow> (db, [(p_group_id reminder, message)], Some e)
               | Inr (result, db') \<Rightarrow> (db', [(p_group_id reminder, message)], None))
         else (db, [], Some SendError))"

text \<open>
  \<^verbatim>\<open>checkTodaysBirthdays()\<close>: the pending reminders of today are read once and processed
  in that order. The result is the database, the messages delivered and the errors logged.
\<close>

fun process_each ::
  "environment \<Rightarrow> nat \<Rightarrow> pending_row list \<Rightarrow> database \<Rightarrow>
     database \<times> (string \<times> message) list \<times> js_error list" where
  "process_each env k [] db = (db, [], [])"
| "process_each env k (reminder # rest) db =
     (case processBirthdayReminder env k reminder db of
        (db', delivered, err) \<Rightarrow>
          (case process_each env (k + 1) rest db' of
             (db'', delivered', errs) \<Rightarrow>
               (db'', delivered @ delivered',
                (case err of None \<Rightarrow> [] | Some e \<Rightarrow> [e]) @ errs)))"

definition checkTodaysBirthdays ::
  "moment \<Rightarrow> environment \<Rightarrow> database \<Rightarrow> database \<times> (string \<times> message) list \<times> js_error list" where
  "checkTodaysBirthdays now env db =
     (let pendingReminders = getPendingReminders now None db
      in if length pendingReminders = 0 then (db, [], [])
         else process_each env 0 pendingReminders db)"

text \<open>
  \<^verbatim>\<open>createTomorrowReminders()\<close>: the database afterwards and the error logged, if any.
\<close>

definition createTomorrowReminders :: "moment \<Rightarrow> database \<Rightarrow> database \<times> js_error option" where
  "createTomorrowReminders now db =
     (let tomorrow = format_MM_DD (date_of (add_day now))
      in case createRemindersForDate tomorrow db of
           Inl e \<Rightarrow> (db, Some e)
         | Inr (remindersCreated, db') \<Rightarrow> (db', None))"

section \<open>Adding a birthday\<close>

text \<open>
  \<^verbatim>\<open>moment(dateStr, format, true)\<close> for the formats \<^verbatim>\<open>DD/MM\<close>, \<^verbatim>\<open>DD-MM\<close> and \<^verbatim>\<open>DD.MM\<close>:
  strict parsing accepts two digits, the separator of the format and two digits, and
  nothing else. The year is not in the input, so the library takes the current year; the
  result is valid when the month is 1..12 and the day exists in that month of that year.
\<close>

definition digit :: "char \<Rightarrow> nat option" where
  "digit c =
     map_of [(CHR ''0'', 0), (CHR ''1'', 1), (CHR ''2'', 2), (CHR ''3'', 3), (CHR ''4'', 4),
             (CHR ''5'', 5), (CHR ''6'', 6), (CHR ''7'', 7), (CHR ''8'', 8), (CHR ''9'', 9)] c"

definition two_digits :: "char \<Rightarrow> char \<Rightarrow> nat option" where
  "two_digits a b =
     (case digit a of None \<Rightarrow> None
      | Some x \<Rightarrow> (case digit b of None \<Rightarrow> None | Some y \<Rightarrow> Some (10 * x + y)))"

definition parse_strict :: "nat \<Rightarrow> char \<Rightarrow> string \<Rightarrow> date option" where
  "parse_strict currentYear separator dateStr =
     (case dateStr of
        [d1, d2, c, m1, m2] \<Rightarrow>
          (case two_digits d1 d2 of None \<Rightarrow> None
           | Some d \<Rightarrow>
               (case two_digits m1 m2 of None \<Rightarrow> None
                | Some m \<Rightarrow>
                    if c = separator \<and> valid_date (Date currentYear m d)
                    then Some (Date currentYear m d) else None))
      | _ \<Rightarrow> None)"

fun first_valid_format :: "nat \<Rightarrow> char list \<Rightarrow> string \<Rightarrow> date option" where
  "first_valid_format currentYear [] dateStr = None"
| "first_valid_format currentYear (separator # formats) dateStr =
     (case parse_strict currentYear separator dateStr of
        Some d \<Rightarrow> Some d
      | None \<Rightarrow> first_valid_format currentYear formats dateStr)"

text \<open>
  \<^verbatim>\<open>validateDate(dateStr)\<close>: \<open>None\<close> is the result with \<^verbatim>\<open>isValid: false\<close>, \<open>Some\<close>
  carries \<^verbatim>\<open>date\<close>. The source comments the last step: "Set year to current year for
  storage".
\<close>

definition validateDate :: "moment \<Rightarrow> string \<Rightarrow> moment option" where
  "validateDate now dateStr =
     (case first_valid_format (year (date_of now)) [CHR ''/'', CHR ''-'', CHR ''.''] dateStr of
        None \<Rightarrow> None
      | Some d \<Rightarrow>
          (let currentYear = year (date_of now)
           in Some (set_year (moment_of_date d) currentYear)))"

text \<open>\<^verbatim>\<open>BirthdayRepository.getBirthdayByUserAndGroup\<close>: the first row of the user in the group.\<close>

definition getBirthdayByUserAndGroup :: "string \<Rightarrow> string \<Rightarrow> database \<Rightarrow> birthday_row option" where
  "getBirthdayByUserAndGroup phoneNumber groupId db =
     find (\<lambda>b. b_phone_number b = phoneNumber \<and> b_group_id b = groupId) (birthdays db)"

text \<open>
  \<^verbatim>\<open>BirthdayRepository.addOrUpdateBirthday(phoneNumber, birthDate, groupId)\<close>: an
  \<^verbatim>\<open>UPDATE\<close> of the rows of the user in the group when there is one, an \<^verbatim>\<open>INSERT\<close> under
  a fresh random id otherwise.
\<close>

definition addOrUpdateBirthday ::
  "timestamp \<Rightarrow> string \<Rightarrow> string \<Rightarrow> date \<Rightarrow> string \<Rightarrow> database \<Rightarrow> js_error + (nat \<times> database)" where
  "addOrUpdateBirthday ts birthdayId phoneNumber birthDate groupId db =
     (case getBirthdayByUserAndGroup phoneNumber groupId db of
        Some existingBirthday \<Rightarrow>
          Inr (length (filter (\<lambda>b. b_phone_number b = phoneNumber \<and> b_group_id b = groupId) (birthdays db)),
               db\<lparr>birthdays :=
                    map (\<lambda>b. if b_phone_number b = phoneNumber \<and> b_group_id b = groupId
                              then b\<lparr>b_birth_date := birthDate, b_updated_at := ts\<rparr> else b)
                      (birthdays db)\<rparr>)
      | None \<Rightarrow>
          if birthdayId \<in> set (map b_id (birthdays db)) then Inl SqliteConstraint
          else Inr (1, db\<lparr>birthdays := birthdays db @
                 [\<lparr>b_id = birthdayId, b_phone_number = phoneNumber, b_birth_date = birthDate,
                   b_group_id = groupId, b_created_at = ts, b_updated_at = ts\<rparr>]\<rparr>))"

text \<open>
  \<^verbatim>\<open>handleAddBirthday\<close>: the database afterwards and which reply is sent. The date handed
  to the repository is \<^verbatim>\<open>validation.date.format('YYYY-MM-DD')\<close>, the calendar date of the
  validated moment.
\<close>

datatype add_reply = UsageReply | InvalidDateFormat | BirthdayAdded date | FailedToAdd

definition handleAddBirthday ::
  "moment \<Rightarrow> timestamp \<Rightarrow> string \<Rightarrow> string \<Rightarrow> string \<Rightarrow> string list \<Rightarrow> database \<Rightarrow>
     database \<times> add_reply" where
  "handleAddBirthday now ts birthdayId phoneNumber groupId args db =
     (case args of
        [] \<Rightarrow> (db, UsageReply)
      | dateStr # _ \<Rightarrow>
          (case validateDate now dateStr of
             None \<Rightarrow> (db, InvalidDateFormat)
           | Some date \<Rightarrow>
               (let birthDate = date_of date
                in case addOrUpdateBirthday ts birthdayId phoneNumber birthDate groupId db of
                     Inl e \<Rightarrow> (db, FailedToAdd)
                   | Inr (result, db') \<Rightarrow> (db', BirthdayAdded birthDate))))"

section \<open>Properties of the reminders table\<close>

text \<open>
  The deduplication key of the data model: no two reminders share a birthday and a date.
  The schema declares no such constraint on the table.
\<close>

definition reminder_key_unique :: "database \<Rightarrow> bool" where
  "reminder_key_unique db =
     distinct (map (\<lambda>r. (r_birthday_id r, r_reminder_date r)) (reminders db))"

text \<open>
  A birthday that the creation job is to remind of on a day: its month and day are that
  day's and its group has the bot switched on.
\<close>

definition eligible :: "date \<Rightarrow> database \<Rightarrow> birthday_row \<Rightarrow> bool" where
  "eligible today db b =
     (format_MM_DD (b_birth_date b) = format_MM_DD today \<and>
      list_ex (\<lambda>g. b_group_id b = g_group_id g \<and> g_bot_active g) (groups db))"

text \<open>The reminders of a birthday for a date.\<close>

definition reminders_for :: "string \<Rightarrow> date \<Rightarrow> database \<Rightarrow> reminder_row list" where
  "reminders_for birthdayId d db =
     filter (\<lambda>r. r_birthday_id r = birthdayId \<and> r_reminder_date r = d) (reminders db)"

text \<open>A row as \<^verbatim>\<open>createReminder\<close> inserts it for a date: unsent and without \<^verbatim>\<open>sent_at\<close>.\<close>

definition new_reminder_of :: "date \<Rightarrow> reminder_row \<Rightarrow> bool" where
  "new_reminder_of today r = (r_reminder_date r = today \<and> r_sent r = False \<and> r_sent_at r = None)"

section \<open>Example data\<close>

text \<open>
  One active group with three members whose birthday is 15 March, and a reminder dated
  15 March 2025 for each of them.
\<close>

definition family_birthdays :: "birthday_row list" where
  "family_birthdays =
     [\<lparr>b_id = ''b1'', b_phone_number = ''111'', b_birth_date = Date 2024 3 15,
       b_group_id = ''g1'', b_created_at = 0, b_updated_at = 0\<rparr>,
      \<lparr>b_id = ''b2'', b_phone_number = ''222'', b_birth_date = Date 2024 3 15,
       b_group_id = ''g1'', b_created_at = 0, b_updated_at = 0\<rparr>,
      \<lparr>b_id = ''b3'', b_phone_number = ''333'', b_birth_date = Date 2024 3 15,
       b_group_id = ''g1'', b_created_at = 0, b_updated_at = 0\<rparr>]"

definition family_users :: "user_row list" where
  "family_users =
     [\<lparr>u_phone_number = ''111'', u_name = ''Ann''\<rparr>,
      \<lparr>u_phone_number = ''222'', u_name = ''Bob''\<rparr>,
      \<lparr>u_phone_number = ''333'', u_name = ''Cy''\<rparr>]"

definition family_db :: database where
  "family_db =
     \<lparr>users = family_users,
      groups = [\<lparr>g_group_id = ''g1'', g_group_name = ''Family'', g_bot_active = True\<rparr>],
      birthdays = family_birthdays,
      reminders =
        [\<lparr>r_id = ''r1'', r_birthday_id = ''b1'', r_reminder_date = Date 2025 3 15,
          r_sent = False, r_sent_at = None\<rparr>,
         \<lparr>r_id = ''r2'', r_birthday_id = ''b2'', r_reminder_date = Date 2025 3 15,
          r_sent = False, r_sent_at = None\<rparr>,
         \<lparr>r_id = ''r3'', r_birthday_id = ''b3'', r_reminder_date = Date 2025 3 15,
          r_sent = False, r_sent_at = None\<rparr>]\<rparr>"

text \<open>The same group and birthdays before any reminder exists.\<close>

definition family_db_no_reminders :: database where
  "family_db_no_reminders = family_db\<lparr>reminders := []\<rparr>"

text \<open>The same data with the bot switched off in the group.\<close>

definition family_db_inactive :: database where
  "family_db_inactive =
     family_db\<lparr>groups := [\<lparr>g_group_id = ''g1'', g_group_name = ''Family'', g_bot_active = False\<rparr>]\<rparr>"

text \<open>Ids that a run of the creation job may draw.\<close>

definition example_uuid :: "nat \<Rightarrow> string" where
  "example_uuid k = (if k = 0 then ''r1'' else if k = 1 then ''r2'' else ''r3'')"

text \<open>A client that delivers every message, and one whose second send of a run fails.\<close>

definition always_delivers :: environment where
  "always_delivers = \<lparr>sendMessage_ok = (\<lambda>k chat m. True), randomIndex = (\<lambda>k. 0)\<rparr>"

definition second_send_fails :: environment where
  "second_send_fails = \<lparr>sendMessage_ok = (\<lambda>k chat m. k \<noteq> 1), randomIndex = (\<lambda>k. 0)\<rparr>"

text \<open>14 March 2025 at 14:00 and at 23:59, and 15 March 2025 at midnight, local time.\<close>

definition march_14_afternoon :: moment where
  "march_14_afternoon = Moment (Date 2025 3 14) 50400000"

definition march_14_before_midnight :: moment where
  "march_14_before_midnight = Moment (Date 2025 3 14) 86340000"

definition march_15_midnight :: moment where
  "march_15_midnight = Moment (Date 2025 3 15) 0"

text \<open>A table whose only reminder was sent at time 500.\<close>

definition sent_db :: database where
  "sent_db =
     family_db\<lparr>reminders :=
       [\<lparr>r_id = ''r1'', r_birthday_id = ''b1'', r_reminder_date = Date 2025 3 15,
         r_sent = True, r_sent_at = Some 500\<rparr>]\<rparr>"

text \<open>
  Two active groups whose names sort the other way round than their ids, one member with
  a pending reminder in each.
\<close>

definition two_groups_db :: database where
  "two_groups_db =
     \<lparr>users = family_users,
      groups = [\<lparr>g_group_id = ''g1'', g_group_name = ''Zeta'', g_bot_active = True\<rparr>,
                \<lparr>g_group_id = ''g2'', g_group_name = ''Alpha'', g_bot_active = True\<rparr>],
      birthdays =
        [\<lparr>b_id = ''b1'', b_phone_number = ''111'', b_birth_date = Date 2024 3 15,
          b_group_id = ''g1'', b_created_at = 0, b_updated_at = 0\<rparr>,
         \<lparr>b_id = ''b2'', b_phone_number = ''222'', b_birth_date = Date 2024 3 15,
          b_group_id = ''g2'', b_created_at = 0, b_updated_at = 0\<rparr>],
      reminders =
        [\<lparr>r_id = ''r1'', r_birthday_id = ''b1'', r_reminder_date = Date 2025 3 15,
          r_sent = False, r_sent_at = None\<rparr>,
         \<lparr>r_id = ''r2'', r_birthday_id = ''b2'', r_reminder_date = Date 2025 3 15,
          r_sent = False, r_sent_at = None\<rparr>]\<rparr>"

text \<open>An empty database, and 1 June of a leap year and of the year after it.\<close>

definition empty_db :: database where
  "empty_db = \<lparr>users = [], groups = [], birthdays = [], reminders = []\<rparr>"

definition june_2024 :: moment where
  "june_2024 = Moment (Date 2024 6 1) 43200000"

definition june_2025 :: moment where
  "june_2025 = Moment (Date 2025 6 1) 43200000"

text \<open>One active group with a member whose birthday is stored as 29 February 2024.\<close>

definition leap_day_db :: database where
  "leap_day_db =
     \<lparr>users = [\<lparr>u_phone_number = ''111'', u_name = ''Ann''\<rparr>],
      groups = [\<lparr>g_group_id = ''g1'', g_group_name = ''Family'', g_bot_active = True\<rparr>],
      birthdays =
        [\<lparr>b_id = ''b1'', b_phone_number = ''111'', b_birth_date = Date 2024 2 29,
          b_group_id = ''g1'', b_created_at = 0, b_updated_at = 0\<rparr>],
      reminders = []\<rparr>"

text \<open>
  The ids of a second run of the creation job, and the family's table with a second
  reminder for the first birthday on the same date.
\<close>

definition late_uuid :: "nat \<Rightarrow> string" where
  "late_uuid k = (if k = 0 then ''r4'' else if k = 1 then ''r5'' else ''r6'')"

definition family_db_duplicate :: database where
  "family_db_duplicate =
     family_db\<lparr>reminders := reminders family_db @
       [\<lparr>r_id = ''r4'', r_birthday_id = ''b1'', r_reminder_date = Date 2025 3 15,
         r_sent = False, r_sent_at = None\<rparr>]\<rparr>"

section \<open>Facts about the calendar\<close>

lemma days_before_month_step:
  assumes "1 \<le> m" "m < m'"
  shows "days_before_month y m + daysInMonth y m \<le> days_before_month y m'"
proof -
  have "[1..<m + (m' - m)] = [1..<m] @ [m..<m + (m' - m)]"
    using assms(1) by (rule upt_add_eq_append)
  then have "[1..<m'] = [1..<m] @ [m..<m']"
    using assms(2) by simp
  moreover have "[m..<m'] = m # [Suc m..<m']"
    using assms by (simp add: upt_conv_Cons)
  ultimately show ?thesis
    by (simp add: days_before_month_def)
qed

lemma day_number_same_year_less:
  assumes "valid_date (Date y m d)" "valid_date (Date y m' d')"
    and "m < m' \<or> (m = m' \<and> d < d')"
  shows "day_number (Date y m d) < day_number (Date y m' d')"
proof (cases "m < m'")
  case True
  have "days_before_month y m + daysInMonth y m \<le> days_before_month y m'"
    using assms(1) True by (intro days_before_month_step) (simp_all add: valid_date_def)
  moreover have "d \<le> daysInMonth y m" "1 \<le> d'"
    using assms(1,2) by (simp_all add: valid_date_def)
  ultimately show ?thesis
    by (simp add: day_number_def)
next
  case False
  then show ?thesis using assms(3) by (simp add: day_number_def)
qed

lemma isBefore_day_iff:
  assumes "ms_of b < 86400000"
  shows "isBefore_day a b \<longleftrightarrow> day_number (date_of a) < day_number (date_of b)"
  using assms unfolding isBefore_day_def endOf_day_def local_ms_def
  by (cases a; cases b) auto

lemma set_year_other_day:
  assumes "valid_date b" "\<not> (month b = 2 \<and> day b = 29)"
  shows "set_year (moment_of_date b) y = Moment (Date y (month b) (day b)) 0"
  using assms by (auto simp add: set_year_def moment_of_date_def)

lemma set_year_leap_day:
  assumes "valid_date b" "month b = 2" "day b = 29"
  shows "set_year (moment_of_date b) y = Moment (Date y 2 (daysInMonth y 2)) 0"
  using assms
  by (auto simp add: set_year_def moment_of_date_def valid_date_def daysInMonth_def split: if_splits)

lemma valid_other_day_any_year:
  assumes "valid_date b" "\<not> (month b = 2 \<and> day b = 29)"
  shows "valid_date (Date y (month b) (day b))"
  using assms by (auto simp add: valid_date_def daysInMonth_def split: if_splits)

lemma diff_days_same_day:
  assumes "ms_of now < 86400000"
  shows "diff_days (Moment (date_of now) 0) now = 0"
  using assms by (simp add: diff_days_def absFloor_def local_ms_def)

lemma isLeapYear_mod4: "isLeapYear y \<Longrightarrow> y mod 4 = 0"
proof -
  assume "isLeapYear y"
  then consider "y mod 4 = 0" | "400 dvd y"
    by (auto simp add: isLeapYear_def)
  then show ?thesis
  proof cases
    case 1
    then show ?thesis .
  next
    case 2
    have "(4::nat) dvd 400" by simp
    then have "4 dvd y" using 2 by (rule dvd_trans)
    then show ?thesis by simp
  qed
qed

lemma leap_years_not_adjacent: "isLeapYear y \<Longrightarrow> \<not> isLeapYear (y + 1)"
proof
  assume "isLeapYear y" "isLeapYear (y + 1)"
  then have "y mod 4 = 0" "(y + 1) mod 4 = 0"
    by (auto dest: isLeapYear_mod4)
  then show False by presburger
qed

lemma february_cut: "min (daysInMonth y 2) (daysInMonth (y + 1) 2) = 28"
  using leap_years_not_adjacent [of y] by (auto simp add: daysInMonth_def)

lemmas calendar_defs =
  valid_moment_def valid_date_def daysInMonth_def isLeapYear_def day_number_def
  days_before_year_def days_before_month_def local_ms_def absFloor_def diff_days_def
  endOf_day_def isBefore_day_def set_year_def add_year_def add_day_def moment_of_date_def
  format_MM_DD_def

section \<open>Next birthday\<close>

lemma next_birthday_same_day:
  assumes "valid_date b" "valid_moment now"
    and same: "month b = month (date_of now) \<and> day b = day (date_of now)"
  shows "getNextBirthdayDate now (moment_of_date b) = Moment (date_of now) 0"
proof -
  obtain y m d where today: "date_of now = Date y m d" by (cases "date_of now")
  have vt: "valid_date (Date y m d)" and ms: "ms_of now < 86400000"
    using assms(2) today by (simp_all add: valid_moment_def)
  have cand: "set_year (moment_of_date b) y = Moment (Date y m d) 0"
  proof (cases "month b = 2 \<and> day b = 29")
    case True
    then have "daysInMonth y 2 = 29"
      using vt same today by (auto simp add: valid_date_def daysInMonth_def split: if_splits)
    then show ?thesis
      using set_year_leap_day [OF assms(1), of y] True same today by simp
  next
    case False
    then show ?thesis
      using set_year_other_day [OF assms(1), of y] same today by simp
  qed
  have nb: "\<not> isBefore_day (Moment (Date y m d) 0) now"
    using isBefore_day_iff [OF ms] today by simp
  show ?thesis
    using cand nb today by (simp add: getNextBirthdayDate_def Let_def)
qed

lemma next_birthday_rollover:
  assumes "valid_date b" "valid_moment now"
    and earlier: "month b < month (date_of now) \<or>
                  (month b = month (date_of now) \<and> day b < day (date_of now))"
    and nl: "\<not> (month b = 2 \<and> day b = 29)"
  shows "getNextBirthdayDate now (moment_of_date b) =
           Moment (Date (year (date_of now) + 1) (month b) (day b)) 0"
proof -
  obtain y m d where today: "date_of now = Date y m d" by (cases "date_of now")
  have vt: "valid_date (Date y m d)" and ms: "ms_of now < 86400000"
    using assms(2) today by (simp_all add: valid_moment_def)
  have cand: "set_year (moment_of_date b) y = Moment (Date y (month b) (day b)) 0"
    using set_year_other_day [OF assms(1) nl] .
  have vc: "valid_date (Date y (month b) (day b))"
    using valid_other_day_any_year [OF assms(1) nl] .
  have vn: "valid_date (Date (y + 1) (month b) (day b))"
    using valid_other_day_any_year [OF assms(1) nl] .
  have "day_number (Date y (month b) (day b)) < day_number (Date y m d)"
    using earlier today by (intro day_number_same_year_less [OF vc vt]) simp
  then have bef: "isBefore_day (Moment (Date y (month b) (day b)) 0) now"
    using isBefore_day_iff [OF ms] today by simp
  have "min (day b) (daysInMonth (y + 1) (month b)) = day b"
    using vn by (simp add: valid_date_def)
  then show ?thesis
    using cand bef today by (simp add: getNextBirthdayDate_def Let_def add_year_def)
qed

text \<open>
  What the code computes for a 29 February that lies before the reference date, in every
  year.
\<close>

lemma next_birthday_leap_day_rollover:
  assumes "valid_date b" "valid_moment now"
    and h: "month b = 2 \<and> day b = 29 \<and> 2 < month (date_of now)"
  shows "getNextBirthdayDate now (moment_of_date b) =
           Moment (Date (year (date_of now) + 1) 2 28) 0"
proof -
  obtain y m d where today: "date_of now = Date y m d" by (cases "date_of now")
  have vt: "valid_date (Date y m d)" and ms: "ms_of now < 86400000"
    using assms(2) today by (simp_all add: valid_moment_def)
  have cand: "set_year (moment_of_date b) y = Moment (Date y 2 (daysInMonth y 2)) 0"
    using set_year_leap_day [OF assms(1)] h by simp
  have vc: "valid_date (Date y 2 (daysInMonth y 2))"
    by (simp add: valid_date_def daysInMonth_def)
  have "day_number (Date y 2 (daysInMonth y 2)) < day_number (Date y m d)"
    using h today by (intro day_number_same_year_less [OF vc vt]) simp
  then have bef: "isBefore_day (Moment (Date y 2 (daysInMonth y 2)) 0) now"
    using isBefore_day_iff [OF ms] today by simp
  have "min (daysInMonth y 2) (daysInMonth (y + 1) 2) = 28"
    by (rule february_cut)
  then show ?thesis
    using cand bef today by (simp add: getNextBirthdayDate_def Let_def add_year_def)
qed

lemma next_birthday_later:
  assumes "valid_date b" "valid_moment now"
    and later: "month (date_of now) < month b \<or>
                (month (date_of now) = month b \<and> day (date_of now) < day b)"
    and nl: "\<not> (month b = 2 \<and> day b = 29)"
  shows "getNextBirthdayDate now (moment_of_date b) =
           Moment (Date (year (date_of now)) (month b) (day b)) 0"
proof -
  obtain y m d where today: "date_of now = Date y m d" by (cases "date_of now")
  have vt: "valid_date (Date y m d)" and ms: "ms_of now < 86400000"
    using assms(2) today by (simp_all add: valid_moment_def)
  have cand: "set_year (moment_of_date b) y = Moment (Date y (month b) (day b)) 0"
    using set_year_other_day [OF assms(1) nl] .
  have vc: "valid_date (Date y (month b) (day b))"
    using valid_other_day_any_year [OF assms(1) nl] .
  have "day_number (Date y m d) < day_number (Date y (month b) (day b))"
    using later today by (intro day_number_same_year_less [OF vt vc]) simp
  then have "\<not> isBefore_day (Moment (Date y (month b) (day b)) 0) now"
    using isBefore_day_iff [OF ms] today by simp
  then show ?thesis
    using cand today by (simp add: getNextBirthdayDate_def Let_def)
qed

text \<open>
  Every birthday other than a 29 February, for every reference instant: the next birthday
  is its month and day in the reference year, and in the year after it exactly when the
  month and day are strictly earlier in the calendar than those of the reference date. On
  the reference date's own month and day the day count to the result is 0.
\<close>

lemma getNextBirthdayDate_other_days:
  assumes "valid_date b" "valid_moment now" and nl: "\<not> (month b = 2 \<and> day b = 29)"
  shows "getNextBirthdayDate now (moment_of_date b) =
           Moment (Date (if month b < month (date_of now) \<or>
                           (month b = month (date_of now) \<and> day b < day (date_of now))
                         then year (date_of now) + 1 else year (date_of now))
                        (month b) (day b)) 0"
proof -
  consider
      (earlier) "month b < month (date_of now) \<or>
                 (month b = month (date_of now) \<and> day b < day (date_of now))"
    | (same) "month b = month (date_of now) \<and> day b = day (date_of now)"
    | (later) "month (date_of now) < month b \<or>
               (month (date_of now) = month b \<and> day (date_of now) < day b)"
    by linarith
  then show ?thesis
  proof cases
    case earlier
    then show ?thesis
      using next_birthday_rollover [OF assms(1,2) earlier nl] by simp
  next
    case same
    have "Moment (date_of now) 0 = Moment (Date (year (date_of now)) (month b) (day b)) 0"
      using same by (cases "date_of now") simp
    then show ?thesis
      using next_birthday_same_day [OF assms(1,2) same] same by simp
  next
    case later
    then have "\<not> (month b < month (date_of now) \<or>
                 (month b = month (date_of now) \<and> day b < day (date_of now)))"
      by linarith
    then show ?thesis
      using next_birthday_later [OF assms(1,2) later nl] by simp
  qed
qed

lemma getNextBirthdayDate_today_is_zero:
  assumes "valid_date b" "valid_moment now"
    and same: "month b = month (date_of now) \<and> day b = day (date_of now)"
  shows "getNextBirthdayDate now (moment_of_date b) = Moment (date_of now) 0 \<and>
         daysUntil now (date_of (getNextBirthdayDate now (moment_of_date b))) = 0"
proof -
  have "ms_of now < 86400000"
    using assms(2) by (simp add: valid_moment_def)
  then have "daysUntil now (date_of now) = 0"
    using diff_days_same_day by (simp add: daysUntil_def moment_of_date_def)
  then show ?thesis
    using next_birthday_same_day [OF assms] by simp
qed

text \<open>
  Claim C5 at a failing input. A member adds \<^verbatim>\<open>29/02\<close> in 2024, which is accepted and
  stored as 2024-02-29. Asked on 1 March 2027, the month and day of the birthday are
  strictly earlier than those of the reference date and 29 February 2028 exists, yet the
  result is 28 February 2028: the year setter has cut the candidate down to 28 February
  2027 and the added year keeps the 28th. The same function, asked on 10 January 2028,
  answers 29 February 2028, and the reminder query selects this birthday on 29 February
  2028 and not on the 28th.
\<close>

theorem getNextBirthdayDate_leap_day_lost:
  "validateDate june_2024 ''29/02'' = Some (moment_of_date (Date 2024 2 29)) \<and>
   valid_date (Date 2028 2 29) \<and>
   getNextBirthdayDate (Moment (Date 2027 3 1) 0) (moment_of_date (Date 2024 2 29)) =
     Moment (Date 2028 2 28) 0 \<and>
   getNextBirthdayDate (Moment (Date 2027 3 1) 0) (moment_of_date (Date 2024 2 29)) \<noteq>
     Moment (Date (2027 + 1) 2 29) 0 \<and>
   getNextBirthdayDate (Moment (Date 2028 1 10) 0) (moment_of_date (Date 2024 2 29)) =
     Moment (Date 2028 2 29) 0 \<and>
   birthdays_to_remind (Date 2028 2 28) leap_day_db = [] \<and>
   birthdays_to_remind (Date 2028 2 29) leap_day_db = [''b1'']"
proof (intro conjI)
  show "validateDate june_2024 ''29/02'' = Some (moment_of_date (Date 2024 2 29))"
    by (simp add: validateDate_def parse_strict_def two_digits_def digit_def set_year_def
          moment_of_date_def valid_date_def daysInMonth_def isLeapYear_def Let_def june_2024_def)
  show "valid_date (Date 2028 2 29)"
    by (simp add: valid_date_def daysInMonth_def isLeapYear_def)
  show lost: "getNextBirthdayDate (Moment (Date 2027 3 1) 0) (moment_of_date (Date 2024 2 29)) =
     Moment (Date 2028 2 28) 0"
    by (simp add: getNextBirthdayDate_def Let_def calendar_defs upt_conv_Cons)
  show "getNextBirthdayDate (Moment (Date 2027 3 1) 0) (moment_of_date (Date 2024 2 29)) \<noteq>
     Moment (Date (2027 + 1) 2 29) 0"
    unfolding lost by simp
  show "getNextBirthdayDate (Moment (Date 2028 1 10) 0) (moment_of_date (Date 2024 2 29)) =
     Moment (Date 2028 2 29) 0"
    by (simp add: getNextBirthdayDate_def Let_def calendar_defs upt_conv_Cons)
  show "birthdays_to_remind (Date 2028 2 28) leap_day_db = []"
    by (simp add: birthdays_to_remind_def format_MM_DD_def leap_day_db_def)
  show "birthdays_to_remind (Date 2028 2 29) leap_day_db = [''b1'']"
    by (simp add: birthdays_to_remind_def format_MM_DD_def leap_day_db_def)
qed

lemmas calendar_eval =
  isLeapYear_def daysInMonth_def day_number_def days_before_year_def days_before_month_def
  local_ms_def absFloor_def diff_days_def endOf_day_def isBefore_day_def set_year_def
  add_year_def moment_of_date_def

section \<open>Days until a date\<close>

lemma daysUntil_same_day:
  assumes "ms_of now < 86400000"
  shows "daysUntil now (date_of now) = 0"
  using diff_days_same_day [OF assms] by (simp add: daysUntil_def moment_of_date_def)

lemma daysUntil_next_day_after_midnight:
  assumes "day_number target = day_number (date_of now) + 1"
    and "0 < ms_of now" "ms_of now < 86400000"
  shows "daysUntil now target = 0"
  using assms
  by (simp add: daysUntil_def moment_of_date_def diff_days_def absFloor_def local_ms_def)

lemma daysUntil_next_day_at_midnight:
  assumes "day_number target = day_number (date_of now) + 1" and "ms_of now = 0"
  shows "daysUntil now target = 1"
  using assms
  by (simp add: daysUntil_def moment_of_date_def diff_days_def absFloor_def local_ms_def)

lemma daysUntil_nonnegative:
  assumes "day_number (date_of now) \<le> day_number target" and "ms_of now < 86400000"
  shows "0 \<le> daysUntil now target"
proof (cases "day_number (date_of now) = day_number target")
  case True
  then show ?thesis
    using assms(2)
    by (simp add: daysUntil_def moment_of_date_def diff_days_def absFloor_def local_ms_def)
next
  case False
  then have "day_number (date_of now) + 1 \<le> day_number target"
    using assms(1) by simp
  then have "(int (day_number (date_of now)) + 1) * 86400000 \<le> int (day_number target) * 86400000"
    by (simp only: mult_le_cancel_right) simp
  then have "0 \<le> local_ms (moment_of_date target) - local_ms now"
    using assms(2) by (simp add: local_ms_def moment_of_date_def algebra_simps)
  then show ?thesis
    by (simp add: daysUntil_def diff_days_def absFloor_def)
qed

text \<open>
  Claim C6 at a failing input. On 14 March 2025 at 14:00 the day count to 15 March 2025,
  the next calendar day, is 0 and not 1, while at midnight of the same day it is 1: the time
  of day of the reference instant changes the result. For a member whose birthday is
  15 March the bot answers with the text for the birthday itself.
\<close>

theorem daysUntil_tomorrow_is_zero:
  "daysUntil march_14_afternoon (Date 2025 3 15) = 0 \<and>
   daysUntil (Moment (Date 2025 3 14) 0) (Date 2025 3 15) = 1 \<and>
   getNextBirthdayDate march_14_afternoon (moment_of_date (Date 2024 3 15)) =
     Moment (Date 2025 3 15) 0 \<and>
   handleMyBirthday_reply march_14_afternoon (Date 2024 3 15) = HappyBirthday"
proof (intro conjI)
  show "daysUntil march_14_afternoon (Date 2025 3 15) = 0"
    by (simp add: march_14_afternoon_def daysUntil_def calendar_eval upt_conv_Cons)
  show "daysUntil (Moment (Date 2025 3 14) 0) (Date 2025 3 15) = 1"
    by (simp add: daysUntil_def calendar_eval upt_conv_Cons)
  show next_one: "getNextBirthdayDate march_14_afternoon (moment_of_date (Date 2024 3 15)) =
     Moment (Date 2025 3 15) 0"
    by (simp add: march_14_afternoon_def getNextBirthdayDate_def Let_def calendar_eval upt_conv_Cons)
  have "diff_days (Moment (Date 2025 3 15) 0) march_14_afternoon = 0"
    by (simp add: march_14_afternoon_def calendar_eval upt_conv_Cons)
  then show "handleMyBirthday_reply march_14_afternoon (Date 2024 3 15) = HappyBirthday"
    by (simp add: handleMyBirthday_reply_def Let_def next_one)
qed

section \<open>The daily check\<close>

lemma processBirthdayReminder_database:
  "fst (processBirthdayReminder env k reminder db) = db"
  by (simp add: processBirthdayReminder_def markReminderAsSent_def Let_def)

lemma process_each_database: "fst (process_each env k ps db) = db"
proof (induction ps arbitrary: k)
  case Nil
  show ?case by simp
next
  case (Cons p ps)
  obtain d e where step: "processBirthdayReminder env k p db = (db, d, e)"
    using processBirthdayReminder_database [of env k p db]
    by (cases "processBirthdayReminder env k p db") auto
  show ?case
    using Cons.IH [of "k + 1"] by (auto simp add: step split: prod.splits)
qed

lemma checkTodaysBirthdays_database: "fst (checkTodaysBirthdays now env db) = db"
  by (simp add: checkTodaysBirthdays_def Let_def process_each_database)

text \<open>The messages of a run in which every send succeeds: one per pending row, in order.\<close>

lemma process_each_delivered:
  assumes "\<And>k chat m. sendMessage_ok env k chat m"
  shows "map fst (fst (snd (process_each env k ps db))) = map p_group_id ps \<and>
         map (\<lambda>(chat, m). case m of BirthdayMessage i phone \<Rightarrow> phone)
           (fst (snd (process_each env k ps db))) = map p_phone_number ps"
proof (induction ps arbitrary: k db)
  case Nil
  show ?case by simp
next
  case (Cons p ps)
  have step: "processBirthdayReminder env k p db =
      (db, [(p_group_id p, BirthdayMessage (randomIndex env k) (p_phone_number p))], Some TypeError)"
    using assms
    by (simp add: processBirthdayReminder_def markReminderAsSent_def createBirthdayMessage_def Let_def)
  show ?case
    using Cons.IH [of "k + 1" db]
    by (cases "process_each env (k + 1) ps db") (simp add: step)
qed

text \<open>
  Claim C8 at a failing input. Three pending reminders R1, R2, R3 and a client whose second
  send fails: the run delivers the messages of R1 and R3, so the failure of R2 does not stop
  the batch, but it marks nothing: all three rows still have \<open>sent = false\<close>, and the run
  logs a \<^verbatim>\<open>TypeError\<close> for R1 and R3.
\<close>

theorem checkTodaysBirthdays_marks_nothing:
  "checkTodaysBirthdays march_15_midnight second_send_fails family_db =
     (family_db,
      [(''g1'', BirthdayMessage 0 ''111''), (''g1'', BirthdayMessage 0 ''333'')],
      [TypeError, SendError, TypeError]) \<and>
   map r_sent (reminders (fst (checkTodaysBirthdays march_15_midnight second_send_fails family_db))) =
     [False, False, False]"
  by (simp add: checkTodaysBirthdays_def getPendingReminders_def pending_rows_def
        pending_row_of_def left_join_def bot_active_is_true_def processBirthdayReminder_def
        markReminderAsSent_def createBirthdayMessage_def Let_def
        family_db_def family_users_def family_birthdays_def second_send_fails_def
        march_15_midnight_def)

section \<open>Creating tomorrow's reminders\<close>

lemma createTomorrowReminders_creates_nothing:
  "createTomorrowReminders now db = (db, Some TypeError)"
  by (simp add: createTomorrowReminders_def createRemindersForDate_def Let_def)

text \<open>
  Claim C2 at a failing input. On 14 March 2025 at 23:59 three members of an active group
  have their birthday tomorrow and no reminder exists. The job computes tomorrow's month
  and day, 15 March, the call into the repository throws, and the reminders table is as
  empty as before. The method the repository does have, \<^verbatim>\<open>createTodaysReminders\<close>, would
  create nothing at that moment either: it selects the birthdays of the day itself.
\<close>

theorem createTomorrowReminders_on_eve:
  "format_MM_DD (date_of (add_day march_14_before_midnight)) = (3, 15) \<and>
   map (\<lambda>b. format_MM_DD (b_birth_date b)) (birthdays family_db_no_reminders) =
     [(3, 15), (3, 15), (3, 15)] \<and>
   createTomorrowReminders march_14_before_midnight family_db_no_reminders =
     (family_db_no_reminders, Some TypeError) \<and>
   reminders (fst (createTomorrowReminders march_14_before_midnight family_db_no_reminders)) = [] \<and>
   createTodaysReminders march_14_before_midnight example_uuid family_db_no_reminders =
     (Inr [], family_db_no_reminders)"
proof (intro conjI)
  show "format_MM_DD (date_of (add_day march_14_before_midnight)) = (3, 15)"
    by (simp add: march_14_before_midnight_def add_day_def daysInMonth_def format_MM_DD_def)
  show "map (\<lambda>b. format_MM_DD (b_birth_date b)) (birthdays family_db_no_reminders) =
     [(3, 15), (3, 15), (3, 15)]"
    by (simp add: family_db_no_reminders_def family_db_def family_birthdays_def format_MM_DD_def)
  show "createTomorrowReminders march_14_before_midnight family_db_no_reminders =
     (family_db_no_reminders, Some TypeError)"
    by (simp add: createTomorrowReminders_def createRemindersForDate_def Let_def)
  then show "reminders (fst (createTomorrowReminders march_14_before_midnight family_db_no_reminders)) = []"
    by (simp add: family_db_no_reminders_def)
  show "createTodaysReminders march_14_before_midnight example_uuid family_db_no_reminders =
     (Inr [], family_db_no_reminders)"
    by (simp add: createTodaysReminders_def birthdays_to_remind_def format_MM_DD_def Let_def
          march_14_before_midnight_def family_db_no_reminders_def family_db_def
          family_birthdays_def)
qed

section \<open>A run of the daily check without failures\<close>

lemmas run_eval =
  checkTodaysBirthdays_def getPendingReminders_def pending_rows_def pending_row_of_def
  left_join_def bot_active_is_true_def processBirthdayReminder_def markReminderAsSent_def
  createBirthdayMessage_def Let_def

lemmas example_defs =
  family_db_def family_users_def family_birthdays_def family_db_no_reminders_def
  family_db_inactive_def always_delivers_def second_send_fails_def march_15_midnight_def

text \<open>
  Claim C1, as the code has it by design. In a run in which no send fails, the messages
  delivered are exactly one per row of \<^verbatim>\<open>getPendingReminders()\<close>, in that order, to the
  row's group and tagging the row's phone number; and every reminder that the query did
  not return (already sent, of another date, of a group with the bot switched off, or
  without its birthday row) is in the table afterwards as it was before.
\<close>

theorem checkTodaysBirthdays_delivers_pending:
  assumes "\<And>k chat m. sendMessage_ok env k chat m"
  shows "map fst (fst (snd (checkTodaysBirthdays now env db))) =
           map p_group_id (getPendingReminders now None db) \<and>
         map (\<lambda>(chat, m). case m of BirthdayMessage i phone \<Rightarrow> phone)
             (fst (snd (checkTodaysBirthdays now env db))) =
           map p_phone_number (getPendingReminders now None db) \<and>
         (\<forall>r \<in> set (reminders db).
            r_id r \<notin> set (map p_id (getPendingReminders now None db)) \<longrightarrow>
            r \<in> set (reminders (fst (checkTodaysBirthdays now env db))))"
proof (intro conjI)
  show "map fst (fst (snd (checkTodaysBirthdays now env db))) =
           map p_group_id (getPendingReminders now None db)"
    using process_each_delivered [OF assms, of 0 "getPendingReminders now None db" db]
    by (simp add: checkTodaysBirthdays_def Let_def)
  show "map (\<lambda>(chat, m). case m of BirthdayMessage i phone \<Rightarrow> phone)
             (fst (snd (checkTodaysBirthdays now env db))) =
           map p_phone_number (getPendingReminders now None db)"
    using process_each_delivered [OF assms, of 0 "getPendingReminders now None db" db]
    by (simp add: checkTodaysBirthdays_def Let_def)
  show "\<forall>r \<in> set (reminders db).
            r_id r \<notin> set (map p_id (getPendingReminders now None db)) \<longrightarrow>
            r \<in> set (reminders (fst (checkTodaysBirthdays now env db)))"
    by (simp add: checkTodaysBirthdays_database)
qed

theorem checkTodaysBirthdays_delivers_pending_witness:
  "(\<forall>k chat m. sendMessage_ok always_delivers k chat m) \<and>
   map fst (fst (snd (checkTodaysBirthdays march_15_midnight always_delivers family_db))) =
     [''g1'', ''g1'', ''g1''] \<and>
   map (\<lambda>(chat, m). case m of BirthdayMessage i phone \<Rightarrow> phone)
       (fst (snd (checkTodaysBirthdays march_15_midnight always_delivers family_db))) =
     [''111'', ''222'', ''333'']"
proof -
  have ok: "\<And>k chat m. sendMessage_ok always_delivers k chat m"
    by (simp add: always_delivers_def)
  have pending: "map p_group_id (getPendingReminders march_15_midnight None family_db) =
                   [''g1'', ''g1'', ''g1''] \<and>
                 map p_phone_number (getPendingReminders march_15_midnight None family_db) =
                   [''111'', ''222'', ''333'']"
    by (simp add: run_eval example_defs)
  show ?thesis
    using ok pending
      checkTodaysBirthdays_delivers_pending [OF ok, of march_15_midnight family_db]
    by simp
qed

text \<open>
  The claim as stated fails by design where the bot is switched off in the group: the three
  reminders dated 15 March 2025 are not pending, nothing is delivered although no send
  fails, and all three still have \<open>sent = false\<close> after the run of that day.
\<close>

theorem checkTodaysBirthdays_inactive_group_counterexample:
  "map r_reminder_date (reminders family_db_inactive) =
     [Date 2025 3 15, Date 2025 3 15, Date 2025 3 15] \<and>
   checkTodaysBirthdays march_15_midnight always_delivers family_db_inactive =
     (family_db_inactive, [], []) \<and>
   map r_sent (reminders (fst (checkTodaysBirthdays march_15_midnight always_delivers family_db_inactive))) =
     [False, False, False]"
  by (simp add: run_eval example_defs)

section \<open>Marking a reminder as sent\<close>

text \<open>The table after \<^verbatim>\<open>markReminderSent\<close>, and the rows it touches.\<close>

lemma markReminderSent_reminders:
  "reminders (snd (markReminderSent now rid db)) =
     map (\<lambda>r. if r_id r = rid then r\<lparr>r_sent := True, r_sent_at := Some now\<rparr> else r) (reminders db)"
  by (simp add: markReminderSent_def)

lemma mark_other_rows:
  "filter (\<lambda>r. r_id r \<noteq> rid)
     (map (\<lambda>r. if r_id r = rid then r\<lparr>r_sent := True, r_sent_at := Some now\<rparr> else r) rs) =
   filter (\<lambda>r. r_id r \<noteq> rid) rs"
  by (induction rs) simp_all

lemma mark_rows_with_id:
  assumes "r \<in> set (map (\<lambda>x. if r_id x = rid then x\<lparr>r_sent := True, r_sent_at := Some now\<rparr> else x) rs)"
    and "r_id r = rid"
  shows "r_sent r = True \<and> r_sent_at r = Some now"
proof -
  have "\<exists>x \<in> set rs. r = (if r_id x = rid then x\<lparr>r_sent := True, r_sent_at := Some now\<rparr> else x)"
    using assms(1) unfolding set_map image_iff .
  then obtain x where x: "x \<in> set rs"
      and r: "r = (if r_id x = rid then x\<lparr>r_sent := True, r_sent_at := Some now\<rparr> else x)"
    by blast
  show ?thesis
  proof (cases "r_id x = rid")
    case True
    then have "r = x\<lparr>r_sent := True, r_sent_at := Some now\<rparr>" using r by simp
    then show ?thesis by simp
  next
    case False
    then have "r = x" using r by simp
    then show ?thesis using False assms(2) by simp
  qed
qed

lemma markReminderSent_consistent:
  assumes "sent_consistent db"
  shows "sent_consistent (snd (markReminderSent now rid db))"
  using assms by (auto simp add: sent_consistent_def markReminderSent_reminders list_all_iff)

lemma createReminder_consistent:
  assumes "sent_consistent db" "createReminder rid bid d db = Inr (n, db')"
  shows "sent_consistent db'"
  using assms by (auto simp add: sent_consistent_def createReminder_def split: if_splits)

lemma createReminder_appends:
  assumes "createReminder rid bid d db = Inr (n, db')"
  shows "reminders db' = reminders db @
        [\<lparr>r_id = rid, r_birthday_id = bid, r_reminder_date = d, r_sent = False, r_sent_at = None\<rparr>]"
  using assms by (auto simp add: createReminder_def split: if_splits)

text \<open>
  Claim C4, as the code has it. \<^verbatim>\<open>markReminderSent\<close> has no condition on \<^verbatim>\<open>sent\<close>: every
  row with the id gets \<open>sent = true\<close> and \<open>sent_at = now\<close>, whether it was sent before or
  not; the other rows and the ids are unchanged, and the result counts the rows with the
  id. \<^verbatim>\<open>createReminder\<close> adds an unsent row without \<open>sent_at\<close>. Both keep the invariant
  that \<open>sent_at\<close> is set exactly in the rows with \<open>sent = true\<close>.
\<close>

theorem markReminderSent_unconditional:
  "(\<forall>r \<in> set (reminders (snd (markReminderSent now rid db))).
      r_id r = rid \<longrightarrow> r_sent r = True \<and> r_sent_at r = Some now) \<and>
   filter (\<lambda>r. r_id r \<noteq> rid) (reminders (snd (markReminderSent now rid db))) =
     filter (\<lambda>r. r_id r \<noteq> rid) (reminders db) \<and>
   map r_id (reminders (snd (markReminderSent now rid db))) = map r_id (reminders db) \<and>
   fst (markReminderSent now rid db) = length (filter (\<lambda>r. r_id r = rid) (reminders db)) \<and>
   (sent_consistent db \<longrightarrow> sent_consistent (snd (markReminderSent now rid db))) \<and>
   (sent_consistent db \<and> createReminder rid' bid d db = Inr (n, db') \<longrightarrow>
      sent_consistent db' \<and>
      reminders db' = reminders db @
        [\<lparr>r_id = rid', r_birthday_id = bid, r_reminder_date = d, r_sent = False, r_sent_at = None\<rparr>])"
proof (intro conjI)
  show "\<forall>r \<in> set (reminders (snd (markReminderSent now rid db))).
      r_id r = rid \<longrightarrow> r_sent r = True \<and> r_sent_at r = Some now"
    using mark_rows_with_id [of _ rid now "reminders db"]
    unfolding markReminderSent_reminders by blast
  show "filter (\<lambda>r. r_id r \<noteq> rid) (reminders (snd (markReminderSent now rid db))) =
     filter (\<lambda>r. r_id r \<noteq> rid) (reminders db)"
    by (simp only: markReminderSent_reminders mark_other_rows)
  show "map r_id (reminders (snd (markReminderSent now rid db))) = map r_id (reminders db)"
    by (simp add: markReminderSent_reminders comp_def)
  show "fst (markReminderSent now rid db) = length (filter (\<lambda>r. r_id r = rid) (reminders db))"
    by (simp add: markReminderSent_def)
  show "sent_consistent db \<longrightarrow> sent_consistent (snd (markReminderSent now rid db))"
    using markReminderSent_consistent by blast
  show "sent_consistent db \<and> createReminder rid' bid d db = Inr (n, db') \<longrightarrow>
      sent_consistent db' \<and>
      reminders db' = reminders db @
        [\<lparr>r_id = rid', r_birthday_id = bid, r_reminder_date = d, r_sent = False, r_sent_at = None\<rparr>]"
    using createReminder_consistent [of db rid' bid d n db']
      createReminder_appends [of rid' bid d db n db']
    by blast
qed

theorem markReminderSent_unconditional_witness:
  "sent_consistent family_db \<and>
   sent_consistent (snd (markReminderSent 900 ''r1'' family_db)) \<and>
   fst (markReminderSent 900 ''r1'' family_db) = 1 \<and>
   map r_sent_at (reminders (snd (markReminderSent 900 ''r1'' family_db))) = [Some 900, None, None]"
proof -
  have c: "sent_consistent family_db"
    by (simp add: sent_consistent_def example_defs)
  have "sent_consistent (snd (markReminderSent 900 ''r1'' family_db))"
    using c markReminderSent_unconditional [where now = 900 and rid = "''r1''" and db = family_db]
    by blast
  moreover have "fst (markReminderSent 900 ''r1'' family_db) = 1"
    by (simp add: markReminderSent_def example_defs)
  moreover have "map r_sent_at (reminders (snd (markReminderSent 900 ''r1'' family_db))) =
      [Some 900, None, None]"
    by (simp add: markReminderSent_def example_defs)
  ultimately show ?thesis using c by blast
qed

text \<open>
  The claim as stated fails on a reminder that is already sent: marking it again is not a
  no-op. The row sent at time 500 is changed, the call reports one changed row, and
  \<open>sent_at\<close> is written a second time.
\<close>

theorem markReminderSent_again_counterexample:
  "map r_sent (reminders sent_db) = [True] \<and>
   map r_sent_at (reminders sent_db) = [Some 500] \<and>
   fst (markReminderSent 900 ''r1'' sent_db) = 1 \<and>
   map r_sent_at (reminders (snd (markReminderSent 900 ''r1'' sent_db))) = [Some 900] \<and>
   snd (markReminderSent 900 ''r1'' sent_db) \<noteq> sent_db"
proof -
  have a: "map r_sent_at (reminders (snd (markReminderSent 900 ''r1'' sent_db))) = [Some 900]"
    by (simp add: markReminderSent_def sent_db_def)
  have b: "map r_sent_at (reminders sent_db) = [Some 500]"
    by (simp add: sent_db_def)
  have "snd (markReminderSent 900 ''r1'' sent_db) \<noteq> sent_db"
    using a b by auto
  moreover have "fst (markReminderSent 900 ''r1'' sent_db) = 1"
    by (simp add: markReminderSent_def sent_db_def)
  moreover have "map r_sent (reminders sent_db) = [True]"
    by (simp add: sent_db_def)
  ultimately show ?thesis using a b by blast
qed

section \<open>Pending reminders\<close>

lemma left_join_Some: "Some x \<in> set (left_join c t) \<longleftrightarrow> x \<in> set t \<and> c x"
proof (cases "filter c t")
  case Nil
  then have "\<not> (x \<in> set t \<and> c x)"
    by (simp add: filter_empty_conv)
  then show ?thesis using Nil by (simp add: left_join_def)
next
  case (Cons m ms)
  have "Some x \<in> set (left_join c t) \<longleftrightarrow> x \<in> set (filter c t)"
    using Cons by (auto simp add: left_join_def)
  then show ?thesis by simp
qed

lemma pending_rows_origin:
  assumes "p \<in> set (pending_rows d db)"
  shows "\<exists>r b u g. r \<in> set (reminders db) \<and> b \<in> set (birthdays db) \<and> g \<in> set (groups db) \<and>
           r_birthday_id r = b_id b \<and> b_group_id b = g_group_id g \<and> g_bot_active g \<and>
           r_reminder_date r = d \<and> r_sent r = False \<and> p = pending_row_of r b u (Some g)"
proof -
  from assms obtain r b u g where
      r: "r \<in> set (reminders db)" and b: "b \<in> set (birthdays db)" "r_birthday_id r = b_id b"
      and g: "g \<in> set (left_join (\<lambda>g. b_group_id b = g_group_id g) (groups db))"
      and w: "r_reminder_date r = d" "r_sent r = False" "bot_active_is_true g"
      and p: "p = pending_row_of r b u g"
    unfolding pending_rows_def by (auto split: if_splits)
  from w(3) obtain g' where g': "g = Some g'" "g_bot_active g'"
    by (cases g) (simp_all add: bot_active_is_true_def)
  have "g' \<in> set (groups db)" "b_group_id b = g_group_id g'"
    using g g'(1) by (simp_all add: left_join_Some)
  then show ?thesis using r b w(1,2) p g' by blast
qed

lemma getPendingReminders_set:
  "set (getPendingReminders now date db) =
     set (pending_rows (case date of Some d \<Rightarrow> d | None \<Rightarrow> date_of now) db)"
  by (simp add: getPendingReminders_def Let_def)

text \<open>
  Claim C7, as the code has it. The rows of \<^verbatim>\<open>getPendingReminders\<close> are the rows of the
  join that pass the \<^verbatim>\<open>WHERE\<close> clause, sorted by the name of the group and then by the
  name of the user.
\<close>

theorem getPendingReminders_sorted_by_names:
  "sorted (map (\<lambda>p. (p_group_name p, p_name p)) (getPendingReminders now date db)) \<and>
   set (getPendingReminders now date db) =
     set (pending_rows (case date of Some d \<Rightarrow> d | None \<Rightarrow> date_of now) db) \<and>
   length (getPendingReminders now date db) =
     length (pending_rows (case date of Some d \<Rightarrow> d | None \<Rightarrow> date_of now) db) \<and>
   list_all (\<lambda>p. p_sent p = False \<and> p_group_name p \<noteq> None \<and>
                 p_reminder_date p = (case date of Some d \<Rightarrow> d | None \<Rightarrow> date_of now))
     (getPendingReminders now date db)"
proof (intro conjI)
  let ?d = "case date of Some d \<Rightarrow> d | None \<Rightarrow> date_of now"
  show "sorted (map (\<lambda>p. (p_group_name p, p_name p)) (getPendingReminders now date db))"
    by (simp add: getPendingReminders_def Let_def)
  show "set (getPendingReminders now date db) = set (pending_rows ?d db)"
    by (rule getPendingReminders_set)
  show "length (getPendingReminders now date db) = length (pending_rows ?d db)"
    by (simp add: getPendingReminders_def Let_def)
  have "p_sent p = False \<and> p_group_name p \<noteq> None \<and> p_reminder_date p = ?d"
    if row: "p \<in> set (pending_rows ?d db)" for p
  proof -
    obtain r b u g where "r_reminder_date r = ?d" "r_sent r = False"
        "p = pending_row_of r b u (Some g)"
      using pending_rows_origin [OF row] by blast
    then show ?thesis by (simp add: pending_row_of_def)
  qed
  then show "list_all (\<lambda>p. p_sent p = False \<and> p_group_name p \<noteq> None \<and> p_reminder_date p = ?d)
     (getPendingReminders now date db)"
    unfolding list_all_iff getPendingReminders_set by blast
qed

theorem getPendingReminders_sorted_by_names_witness:
  "map p_group_name (getPendingReminders march_15_midnight None two_groups_db) =
     [Some ''Alpha'', Some ''Zeta''] \<and>
   sorted (map (\<lambda>p. (p_group_name p, p_name p))
            (getPendingReminders march_15_midnight None two_groups_db)) \<and>
   list_all (\<lambda>p. p_sent p = False \<and> p_group_name p \<noteq> None \<and> p_reminder_date p = Date 2025 3 15)
     (getPendingReminders march_15_midnight None two_groups_db)"
proof -
  have names: "map p_group_name (getPendingReminders march_15_midnight None two_groups_db) =
      [Some ''Alpha'', Some ''Zeta'']"
    by (simp add: run_eval two_groups_db_def example_defs)
  have today: "(case None of Some d \<Rightarrow> d | None \<Rightarrow> date_of march_15_midnight) = Date 2025 3 15"
    by (simp add: march_15_midnight_def)
  note main = getPendingReminders_sorted_by_names [of march_15_midnight None two_groups_db]
  have "sorted (map (\<lambda>p. (p_group_name p, p_name p))
            (getPendingReminders march_15_midnight None two_groups_db))"
    using main by blast
  moreover have "list_all (\<lambda>p. p_sent p = False \<and> p_group_name p \<noteq> None \<and>
        p_reminder_date p = Date 2025 3 15)
     (getPendingReminders march_15_midnight None two_groups_db)"
    using main unfolding today by blast
  ultimately show ?thesis using names by blast
qed

text \<open>
  The claim as stated fails where the ids of two groups and their names sort differently:
  the row of group \<open>g2\<close>, named Alpha, comes before the row of group \<open>g1\<close>, named Zeta.
\<close>

theorem getPendingReminders_order_counterexample:
  "map p_group_id (getPendingReminders march_15_midnight None two_groups_db) = [''g2'', ''g1''] \<and>
   map p_group_name (getPendingReminders march_15_midnight None two_groups_db) =
     [Some ''Alpha'', Some ''Zeta''] \<and>
   \<not> sorted (map (\<lambda>p. (p_group_id p, p_phone_number p))
               (getPendingReminders march_15_midnight None two_groups_db))"
  by (simp add: run_eval two_groups_db_def example_defs)

section \<open>Creating today's reminders\<close>

lemma birthdays_to_remind_iff:
  "bid \<in> set (birthdays_to_remind today db) \<longleftrightarrow>
     (\<exists>b \<in> set (birthdays db). \<exists>g \<in> set (groups db).
        b_id b = bid \<and> b_group_id b = g_group_id g \<and>
        format_MM_DD (b_birth_date b) = format_MM_DD today \<and> g_bot_active g \<and>
        \<not> list_ex (\<lambda>r. r_birthday_id r = b_id b \<and> r_reminder_date r = today) (reminders db))"
  unfolding birthdays_to_remind_def by auto

lemma createReminder_tables:
  assumes "createReminder rid bid d db = Inr (n, db')"
  shows "users db' = users db \<and> groups db' = groups db \<and> birthdays db' = birthdays db \<and> n = 1"
  using assms by (auto simp add: createReminder_def split: if_splits)

lemma create_each_effect:
  "\<exists>new. reminders (snd (create_each uuid k today bids results db)) = reminders db @ new \<and>
         map r_birthday_id new = take (length new) bids \<and>
         list_all (new_reminder_of today) new \<and>
         users (snd (create_each uuid k today bids results db)) = users db \<and>
         groups (snd (create_each uuid k today bids results db)) = groups db \<and>
         birthdays (snd (create_each uuid k today bids results db)) = birthdays db \<and>
         (case fst (create_each uuid k today bids results db) of
            Inl e \<Rightarrow> True
          | Inr rs \<Rightarrow> length new = length bids \<and> rs = results @ replicate (length bids) 1)"
proof (induction bids arbitrary: k results db)
  case Nil
  show ?case by simp
next
  case (Cons bid bids)
  show ?case
  proof (cases "createReminder (uuid k) bid today db")
    case (Inl e)
    then show ?thesis by simp
  next
    case (Inr res)
    obtain n db1 where res: "res = (n, db1)" by (cases res)
    have step: "createReminder (uuid k) bid today db = Inr (n, db1)"
      using Inr res by simp
    let ?row = "\<lparr>r_id = uuid k, r_birthday_id = bid, r_reminder_date = today,
                 r_sent = False, r_sent_at = None\<rparr>"
    have r1: "reminders db1 = reminders db @ [?row]"
      using createReminder_appends [OF step] .
    have t1: "users db1 = users db \<and> groups db1 = groups db \<and> birthdays db1 = birthdays db \<and> n = 1"
      using createReminder_tables [OF step] .
    let ?R = "create_each uuid (k + 1) today bids (results @ [n]) db1"
    from Cons.IH [of "k + 1" "results @ [n]" db1]
    obtain new where new:
        "reminders (snd ?R) = reminders db1 @ new"
        "map r_birthday_id new = take (length new) bids"
        "list_all (new_reminder_of today) new"
        "users (snd ?R) = users db1" "groups (snd ?R) = groups db1"
        "birthdays (snd ?R) = birthdays db1"
        "(case fst ?R of Inl e \<Rightarrow> True
          | Inr rs \<Rightarrow> length new = length bids \<and> rs = (results @ [n]) @ replicate (length bids) 1)"
      by blast
    have eq: "create_each uuid k today (bid # bids) results db = ?R"
      using step by simp
    have "reminders (snd ?R) = reminders db @ (?row # new)"
      using new(1) r1 by simp
    moreover have "map r_birthday_id (?row # new) = take (length (?row # new)) (bid # bids)"
      using new(2) by simp
    moreover have "list_all (new_reminder_of today) (?row # new)"
      using new(3) by (simp add: new_reminder_of_def)
    moreover have "users (snd ?R) = users db" "groups (snd ?R) = groups db"
        "birthdays (snd ?R) = birthdays db"
      using new(4,5,6) t1 by simp_all
    moreover have "(case fst ?R of Inl e \<Rightarrow> True
          | Inr rs \<Rightarrow> length (?row # new) = length (bid # bids) \<and>
                     rs = results @ replicate (length (bid # bids)) 1)"
      using new(7) t1 by (cases "fst ?R") (simp_all add: replicate_append_same)
    ultimately show ?thesis
      unfolding eq by blast
  qed
qed

lemma process_each_chats:
  "set (map fst (fst (snd (process_each env k ps db)))) \<subseteq> set (map p_group_id ps)"
proof (induction ps arbitrary: k db)
  case Nil
  show ?case by simp
next
  case (Cons p ps)
  obtain d e where step: "processBirthdayReminder env k p db = (db, d, e)"
    using processBirthdayReminder_database [of env k p db]
    by (cases "processBirthdayReminder env k p db") auto
  have d: "set (map fst d) \<subseteq> {p_group_id p}"
    using step by (auto simp add: processBirthdayReminder_def markReminderAsSent_def Let_def split: if_splits)
  show ?case
    using Cons.IH [of "k + 1" db] d
    by (cases "process_each env (k + 1) ps db") (auto simp add: step)
qed


lemma distinct_map_same:
  assumes "distinct (map f xs)" "x \<in> set xs" "y \<in> set xs" "f x = f y"
  shows "x = y"
  using assms by (meson distinct_map inj_onD)

lemma filter_key_at_most_one:
  assumes "distinct (map f xs)"
  shows "length (filter (\<lambda>x. k = f x) xs) \<le> 1"
  using assms
proof (induction xs)
  case Nil
  show ?case by simp
next
  case (Cons a xs)
  show ?case
  proof (cases "k = f a")
    case True
    then have "k \<notin> f ` set xs" using Cons.prems by auto
    then have "filter (\<lambda>x. k = f x) xs = []"
      by (auto simp add: filter_empty_conv)
    then show ?thesis using True by simp
  next
    case False
    then show ?thesis using Cons by simp
  qed
qed

lemma count_distinct_key:
  assumes "distinct (map f xs)"
  shows "length (filter (\<lambda>x. f x = k) xs) = (if k \<in> set (map f xs) then 1 else 0)"
  using assms
proof (induction xs)
  case Nil
  show ?case by simp
next
  case (Cons a xs)
  show ?case
  proof (cases "f a = k")
    case True
    then have "k \<notin> f ` set xs" using Cons.prems by auto
    then have "filter (\<lambda>x. f x = k) xs = []"
      by (auto simp add: filter_empty_conv)
    then show ?thesis using True by simp
  next
    case False
    then show ?thesis using Cons by auto
  qed
qed

text \<open>The ids selected for one birthday row: none or the id of the row, once.\<close>

lemma selected_for_one_birthday:
  assumes "distinct (map g_group_id gs)"
  shows "concat (map (\<lambda>g. if P g then [i] else []) (filter (\<lambda>g. k = g_group_id g) gs)) = [] \<or>
         concat (map (\<lambda>g. if P g then [i] else []) (filter (\<lambda>g. k = g_group_id g) gs)) = [i]"
proof -
  have "length (filter (\<lambda>g. k = g_group_id g) gs) \<le> 1"
    using assms by (rule filter_key_at_most_one)
  then consider "filter (\<lambda>g. k = g_group_id g) gs = []"
    | g where "filter (\<lambda>g. k = g_group_id g) gs = [g]"
    by (cases "filter (\<lambda>g. k = g_group_id g) gs") (auto simp add: length_Suc_conv)
  then show ?thesis
    by cases simp_all
qed

lemma birthdays_to_remind_distinct:
  assumes "primary_keys db"
  shows "distinct (birthdays_to_remind today db)"
proof -
  have gs: "distinct (map g_group_id (groups db))" and bs: "distinct (map b_id (birthdays db))"
    using assms by (simp_all add: primary_keys_def)
  define F where "F = (\<lambda>b :: birthday_row. concat (map (\<lambda>g.
      if format_MM_DD (b_birth_date b) = format_MM_DD today \<and> g_bot_active g = True \<and>
         \<not> list_ex (\<lambda>r. r_birthday_id r = b_id b \<and> r_reminder_date r = today) (reminders db)
      then [b_id b] else []) (filter (\<lambda>g. b_group_id b = g_group_id g) (groups db))))"
  have F: "F b = [] \<or> F b = [b_id b]" for b
    unfolding F_def by (rule selected_for_one_birthday [OF gs])
  have all: "birthdays_to_remind today db = concat (map F (birthdays db))"
    by (simp add: birthdays_to_remind_def F_def)
  have "distinct (concat (map F bs))" if "distinct (map b_id bs)" for bs
    using that
  proof (induction bs)
    case Nil
    show ?case by simp
  next
    case (Cons b bs)
    have sub: "set (concat (map F bs)) \<subseteq> b_id ` set bs"
    proof
      fix i assume "i \<in> set (concat (map F bs))"
      then obtain c where c: "c \<in> set bs" "i \<in> set (F c)" by auto
      then have "i = b_id c" using F [of c] by auto
      then show "i \<in> b_id ` set bs" using c(1) by blast
    qed
    have "b_id b \<notin> b_id ` set bs" using Cons.prems by auto
    then have "b_id b \<notin> set (concat (map F bs))" using sub by blast
    moreover have "distinct (concat (map F bs))" using Cons by simp
    ultimately show ?case using F [of b] by auto
  qed
  then show ?thesis using bs all by simp
qed

lemma new_rows_keys:
  assumes "list_all (new_reminder_of today) new"
  shows "map (\<lambda>r. (r_birthday_id r, r_reminder_date r)) new =
         map (\<lambda>i. (i, today)) (map r_birthday_id new)"
  using assms by (induction new) (simp_all add: new_reminder_of_def)


lemma createTodaysReminders_effect:
  "\<exists>new. reminders (snd (createTodaysReminders now uuid db)) = reminders db @ new \<and>
         map r_birthday_id new = take (length new) (birthdays_to_remind (date_of now) db) \<and>
         list_all (new_reminder_of (date_of now)) new \<and>
         users (snd (createTodaysReminders now uuid db)) = users db \<and>
         groups (snd (createTodaysReminders now uuid db)) = groups db \<and>
         birthdays (snd (createTodaysReminders now uuid db)) = birthdays db \<and>
         (case fst (createTodaysReminders now uuid db) of
            Inl e \<Rightarrow> True
          | Inr rs \<Rightarrow> length new = length (birthdays_to_remind (date_of now) db) \<and>
                     rs = replicate (length (birthdays_to_remind (date_of now) db)) 1)"
  unfolding createTodaysReminders_def Let_def
  by (rule create_each_effect [of uuid 0 "date_of now" "birthdays_to_remind (date_of now) db" "[]" db,
        unfolded append_Nil])

lemma createTodaysReminders_keys_unique:
  assumes pk: "primary_keys db" and uniq: "reminder_key_unique db"
  shows "reminder_key_unique (snd (createTodaysReminders now uuid db))"
proof -
  let ?today = "date_of now"
  let ?bids = "birthdays_to_remind ?today db"
  let ?key = "\<lambda>r. (r_birthday_id r, r_reminder_date r)"
  obtain new where new:
      "reminders (snd (createTodaysReminders now uuid db)) = reminders db @ new"
      "map r_birthday_id new = take (length new) ?bids"
      "list_all (new_reminder_of ?today) new"
    using createTodaysReminders_effect [of now uuid db] by blast
  have keys_new: "map ?key new = map (\<lambda>i. (i, ?today)) (take (length new) ?bids)"
    using new_rows_keys [OF new(3)] new(2) by simp
  have "distinct (take (length new) ?bids)"
    using birthdays_to_remind_distinct [OF pk] by (rule distinct_take)
  then have d_new: "distinct (map ?key new)"
    unfolding keys_new by (simp add: distinct_map inj_on_def)
  have disjoint: "set (map ?key (reminders db)) \<inter> set (map ?key new) = {}"
  proof (rule ccontr)
    assume "set (map ?key (reminders db)) \<inter> set (map ?key new) \<noteq> {}"
    then obtain k where k: "k \<in> set (map ?key (reminders db))" "k \<in> set (map ?key new)"
      by blast
    from k(2) obtain i where i: "i \<in> set (take (length new) ?bids)" "k = (i, ?today)"
      unfolding keys_new by auto
    have "i \<in> set ?bids" using i(1) by (rule in_set_takeD)
    then have "\<not> list_ex (\<lambda>r. r_birthday_id r = i \<and> r_reminder_date r = ?today) (reminders db)"
      unfolding birthdays_to_remind_iff by blast
    moreover from k(1) i(2) obtain r where "r \<in> set (reminders db)"
        "r_birthday_id r = i" "r_reminder_date r = ?today"
      by auto
    ultimately show False by (auto simp add: list_ex_iff)
  qed
  have "distinct (map ?key (reminders db))"
    using uniq by (simp add: reminder_key_unique_def)
  then show ?thesis
    using d_new disjoint by (simp add: reminder_key_unique_def new(1))
qed

lemma mark_keeps_keys:
  "map (\<lambda>r. (r_birthday_id r, r_reminder_date r))
     (map (\<lambda>r. if r_id r = rid then r\<lparr>r_sent := True, r_sent_at := Some ts\<rparr> else r) rs) =
   map (\<lambda>r. (r_birthday_id r, r_reminder_date r)) rs"
  by (induction rs) simp_all

lemma markReminderSent_keys_unique:
  assumes "reminder_key_unique db"
  shows "reminder_key_unique (snd (markReminderSent ts rid db))"
  using assms
  by (simp only: reminder_key_unique_def markReminderSent_reminders mark_keeps_keys)

text \<open>
  After a run that was not rejected: one reminder dated today for each birthday of today
  in an active group, and nothing left for a second run to create.
\<close>

lemma createTodaysReminders_when_done:
  assumes pk: "primary_keys db" and uniq: "reminder_key_unique db"
  shows "reminder_key_unique (snd (createTodaysReminders now uuid db)) \<and>
         reminder_key_unique (snd (markReminderSent ts rid db)) \<and>
         reminder_key_unique (fst (checkTodaysBirthdays now env db)) \<and>
         (\<forall>rs db'. createTodaysReminders now uuid db = (Inr rs, db') \<longrightarrow>
            (\<forall>b \<in> set (birthdays db'). eligible (date_of now) db' b \<longrightarrow>
               length (reminders_for (b_id b) (date_of now) db') = 1) \<and>
            createTodaysReminders now uuid' db' = (Inr [], db'))"
proof (intro conjI allI impI)
  show "reminder_key_unique (snd (createTodaysReminders now uuid db))"
    using createTodaysReminders_keys_unique [OF pk uniq] .
  show "reminder_key_unique (snd (markReminderSent ts rid db))"
    using markReminderSent_keys_unique [OF uniq] .
  show "reminder_key_unique (fst (checkTodaysBirthdays now env db))"
    using uniq by (simp add: checkTodaysBirthdays_database)
next
  fix rs db'
  assume run: "createTodaysReminders now uuid db = (Inr rs, db')"
  let ?today = "date_of now"
  let ?bids = "birthdays_to_remind ?today db"
  let ?key = "\<lambda>r. (r_birthday_id r, r_reminder_date r)"
  obtain new where new:
      "reminders db' = reminders db @ new"
      "map r_birthday_id new = take (length new) ?bids"
      "list_all (new_reminder_of ?today) new"
      "groups db' = groups db" "birthdays db' = birthdays db"
      "length new = length ?bids"
    using createTodaysReminders_effect [of now uuid db] run by auto
  have ids_new: "map r_birthday_id new = ?bids"
    using new(2,6) by simp
  have uniq': "distinct (map ?key (reminders db'))"
    using createTodaysReminders_keys_unique [OF pk uniq, of now uuid] run
    by (simp add: reminder_key_unique_def)
  have one: "length (reminders_for (b_id b) ?today db') = 1"
    if b: "b \<in> set (birthdays db')" and el: "eligible ?today db' b" for b
  proof -
    have "(b_id b, ?today) \<in> set (map ?key (reminders db'))"
    proof (cases "list_ex (\<lambda>r. r_birthday_id r = b_id b \<and> r_reminder_date r = ?today) (reminders db)")
      case True
      then obtain r where "r \<in> set (reminders db)" "r_birthday_id r = b_id b"
          "r_reminder_date r = ?today"
        by (auto simp add: list_ex_iff)
      then show ?thesis unfolding new(1) by force
    next
      case False
      obtain g where g: "g \<in> set (groups db)" "b_group_id b = g_group_id g" "g_bot_active g"
        using el by (auto simp add: eligible_def list_ex_iff new(4))
      have "format_MM_DD (b_birth_date b) = format_MM_DD ?today"
        using el by (simp add: eligible_def)
      then have "b_id b \<in> set ?bids"
        unfolding birthdays_to_remind_iff using b g False new(5) by auto
      then have "b_id b \<in> set (map r_birthday_id new)"
        using ids_new by simp
      then obtain r where r: "r \<in> set new" "r_birthday_id r = b_id b" by auto
      then have "r_reminder_date r = ?today"
        using new(3) by (auto simp add: list_all_iff new_reminder_of_def)
      then show ?thesis using r unfolding new(1) by force
    qed
    then have "length (filter (\<lambda>r. ?key r = (b_id b, ?today)) (reminders db')) = 1"
      using count_distinct_key [OF uniq', of "(b_id b, ?today)"] by simp
    then show ?thesis by (simp add: reminders_for_def)
  qed
  show "\<forall>b \<in> set (birthdays db'). eligible ?today db' b \<longrightarrow>
          length (reminders_for (b_id b) ?today db') = 1"
    using one by blast
  have "birthdays_to_remind ?today db' = []"
  proof (cases "birthdays_to_remind ?today db'")
    case Nil
    then show ?thesis .
  next
    case (Cons i rest)
    then have "i \<in> set (birthdays_to_remind ?today db')" by simp
    then obtain b g where bg: "b \<in> set (birthdays db')" "g \<in> set (groups db')"
        "b_group_id b = g_group_id g" "format_MM_DD (b_birth_date b) = format_MM_DD ?today"
        "g_bot_active g"
        "\<not> list_ex (\<lambda>r. r_birthday_id r = b_id b \<and> r_reminder_date r = ?today) (reminders db')"
      unfolding birthdays_to_remind_iff by blast
    have "eligible ?today db' b"
      using bg(2,3,4,5) by (auto simp add: eligible_def list_ex_iff)
    then have "length (reminders_for (b_id b) ?today db') = 1"
      using one bg(1) by blast
    then have "reminders_for (b_id b) ?today db' \<noteq> []" by auto
    then have False
      using bg(6) by (auto simp add: reminders_for_def list_ex_iff filter_empty_conv)
    then show ?thesis ..
  qed
  then show "createTodaysReminders now uuid' db' = (Inr [], db')"
    by (simp add: createTodaysReminders_def Let_def)
qed

lemma example_run:
  "createTodaysReminders march_15_midnight example_uuid family_db_no_reminders =
     (Inr [1, 1, 1], family_db)"
  by (simp add: createTodaysReminders_def birthdays_to_remind_def createReminder_def
        format_MM_DD_def example_uuid_def Let_def example_defs)

text \<open>
  A run is not rejected when the ids it draws are new to the table and differ from each
  other.
\<close>

lemma create_each_succeeds:
  assumes "\<forall>i < length bids. uuid (k + i) \<notin> set (map r_id (reminders db))"
    and "distinct (map uuid [k..<k + length bids])"
  shows "fst (create_each uuid k today bids results db) =
           Inr (results @ replicate (length bids) 1)"
  using assms
proof (induction bids arbitrary: k results db)
  case Nil
  show ?case by simp
next
  case (Cons bid bids)
  let ?row = "\<lparr>r_id = uuid k, r_birthday_id = bid, r_reminder_date = today,
               r_sent = False, r_sent_at = None\<rparr>"
  let ?db1 = "db\<lparr>reminders := reminders db @ [?row]\<rparr>"
  have "uuid (k + 0) \<notin> set (map r_id (reminders db))"
    using Cons.prems(1) by (metis length_greater_0_conv list.distinct(1))
  then have step: "createReminder (uuid k) bid today db = Inr (1, ?db1)"
    by (simp add: createReminder_def)
  have e: "k + length (bid # bids) = Suc k + length bids" by simp
  have "[k..<Suc k + length bids] = k # [Suc k..<Suc k + length bids]"
    by (rule upt_conv_Cons) simp
  then have upt: "[k..<k + length (bid # bids)] = k # [Suc k..<Suc k + length bids]"
    by (simp only: e)
  have notk: "uuid k \<notin> set (map uuid [Suc k..<Suc k + length bids])"
    and d': "distinct (map uuid [Suc k..<Suc k + length bids])"
    using Cons.prems(2) unfolding upt by simp_all
  have fresh': "\<forall>i < length bids. uuid (Suc k + i) \<notin> set (map r_id (reminders ?db1))"
  proof (intro allI impI)
    fix i assume i: "i < length bids"
    have "Suc i < length (bid # bids)" using i by simp
    then have "uuid (k + Suc i) \<notin> set (map r_id (reminders db))"
      using Cons.prems(1) by blast
    then have "uuid (Suc k + i) \<notin> set (map r_id (reminders db))"
      by simp
    moreover have m: "Suc k + i \<in> {Suc k..<Suc k + length bids}"
      using i by simp
    have "uuid (Suc k + i) \<in> uuid ` {Suc k..<Suc k + length bids}"
      using m by (rule imageI)
    then have "uuid (Suc k + i) \<in> set (map uuid [Suc k..<Suc k + length bids])"
      by (simp only: set_map set_upt)
    then have "uuid (Suc k + i) \<noteq> uuid k" using notk by metis
    ultimately show "uuid (Suc k + i) \<notin> set (map r_id (reminders ?db1))"
      by simp
  qed
  have "fst (create_each uuid (Suc k) today bids (results @ [1]) ?db1) =
          Inr ((results @ [1]) @ replicate (length bids) 1)"
    using Cons.IH [of "Suc k" ?db1 "results @ [1]"] fresh' d' by blast
  then show ?case
    using step by (simp add: replicate_append_same)
qed

lemma createTodaysReminders_succeeds:
  assumes "\<forall>i < length (birthdays_to_remind (date_of now) db).
             uuid i \<notin> set (map r_id (reminders db))"
    and "distinct (map uuid [0..<length (birthdays_to_remind (date_of now) db)])"
  shows "fst (createTodaysReminders now uuid db) =
           Inr (replicate (length (birthdays_to_remind (date_of now) db)) 1)"
  using create_each_succeeds
    [of "birthdays_to_remind (date_of now) db" uuid 0 db "date_of now" "[]"] assms
  by (simp add: createTodaysReminders_def Let_def)

text \<open>
  Claim C3, as the code has it. The table has no deduplication key: \<^verbatim>\<open>createReminder\<close>
  inserts what it is given. The check is in the query of \<^verbatim>\<open>createTodaysReminders\<close>: run
  on a database in which the primary keys hold and no two reminders share a birthday and a
  date, with ids that are new to the table and differ from each other, the run is not
  rejected and creates one reminder for each selected birthday; afterwards no two reminders
  share a birthday and a date, every birthday of today in an active group has exactly one
  reminder dated today, and a second run, whatever ids it draws, creates nothing and leaves
  the database as it is.
\<close>

theorem createTodaysReminders_idempotent:
  assumes pk: "primary_keys db" and uniq: "reminder_key_unique db"
    and fresh: "\<forall>i < length (birthdays_to_remind (date_of now) db).
                  uuid i \<notin> set (map r_id (reminders db))"
    and dist: "distinct (map uuid [0..<length (birthdays_to_remind (date_of now) db)])"
  shows "fst (createTodaysReminders now uuid db) =
           Inr (replicate (length (birthdays_to_remind (date_of now) db)) 1) \<and>
         reminder_key_unique (snd (createTodaysReminders now uuid db)) \<and>
         (\<forall>b \<in> set (birthdays db). eligible (date_of now) db b \<longrightarrow>
            length (reminders_for (b_id b) (date_of now)
                      (snd (createTodaysReminders now uuid db))) = 1) \<and>
         createTodaysReminders now uuid' (snd (createTodaysReminders now uuid db)) =
           (Inr [], snd (createTodaysReminders now uuid db))"
proof -
  let ?R = "createTodaysReminders now uuid db"
  let ?n = "length (birthdays_to_remind (date_of now) db)"
  have ok: "fst ?R = Inr (replicate ?n 1)"
    using createTodaysReminders_succeeds [OF fresh dist] .
  then have run: "?R = (Inr (replicate ?n 1), snd ?R)"
    by (metis prod.collapse)
  note when_done = createTodaysReminders_when_done
    [OF pk uniq, where now = now and uuid = uuid and uuid' = uuid']
  have tables: "birthdays (snd ?R) = birthdays db" "groups (snd ?R) = groups db"
    using createTodaysReminders_effect [of now uuid db] by auto
  have after: "(\<forall>b \<in> set (birthdays (snd ?R)). eligible (date_of now) (snd ?R) b \<longrightarrow>
               length (reminders_for (b_id b) (date_of now) (snd ?R)) = 1) \<and>
            createTodaysReminders now uuid' (snd ?R) = (Inr [], snd ?R)"
    using when_done run by blast
  have el: "eligible (date_of now) (snd ?R) b = eligible (date_of now) db b" for b
    by (simp add: eligible_def tables)
  have one: "\<forall>b \<in> set (birthdays db). eligible (date_of now) db b \<longrightarrow>
            length (reminders_for (b_id b) (date_of now) (snd ?R)) = 1"
    using after unfolding tables(1) el by blast
  show ?thesis
    using ok createTodaysReminders_keys_unique [OF pk uniq, of now uuid] one after by blast
qed

theorem createTodaysReminders_idempotent_witness:
  "primary_keys family_db_no_reminders \<and> reminder_key_unique family_db_no_reminders \<and>
   birthdays_to_remind (date_of march_15_midnight) family_db_no_reminders = [''b1'', ''b2'', ''b3''] \<and>
   map example_uuid [0..<3] = [''r1'', ''r2'', ''r3''] \<and>
   createTodaysReminders march_15_midnight example_uuid family_db_no_reminders =
     (Inr [1, 1, 1], family_db) \<and>
   reminder_key_unique family_db \<and>
   createTodaysReminders march_15_midnight late_uuid family_db = (Inr [], family_db)"
proof -
  have pk: "primary_keys family_db_no_reminders"
    by (simp add: primary_keys_def example_defs)
  have uniq: "reminder_key_unique family_db_no_reminders"
    by (simp add: reminder_key_unique_def example_defs)
  have sel: "birthdays_to_remind (date_of march_15_midnight) family_db_no_reminders =
               [''b1'', ''b2'', ''b3'']"
    by (simp add: birthdays_to_remind_def format_MM_DD_def example_defs)
  have ids: "map example_uuid [0..<3] = [''r1'', ''r2'', ''r3'']"
    by (simp add: example_uuid_def upt_conv_Cons)
  have fresh: "\<forall>i < length (birthdays_to_remind (date_of march_15_midnight) family_db_no_reminders).
                 example_uuid i \<notin> set (map r_id (reminders family_db_no_reminders))"
    by (simp add: example_defs)
  have dist: "distinct (map example_uuid
                 [0..<length (birthdays_to_remind (date_of march_15_midnight) family_db_no_reminders)])"
    unfolding sel by (simp add: example_uuid_def upt_conv_Cons)
  note main = createTodaysReminders_idempotent
    [OF pk uniq fresh dist, where uuid' = late_uuid]
  have u: "reminder_key_unique family_db"
    using main example_run by simp
  have again: "createTodaysReminders march_15_midnight late_uuid family_db = (Inr [], family_db)"
    using main example_run by simp
  show ?thesis
    using pk uniq sel ids example_run u again by blast
qed

text \<open>
  The claim as stated fails: nothing keeps a second record for the same birthday and date
  out of the table. A call of \<^verbatim>\<open>createReminder\<close> for a birthday that has its reminder
  of the day is accepted and leaves two; and a run of the creation loop over the birthdays
  that were selected before an earlier run inserted its rows leaves two for each.
\<close>

theorem reminder_key_not_enforced_counterexample:
  "primary_keys family_db \<and> reminder_key_unique family_db \<and>
   createReminder ''r4'' ''b1'' (Date 2025 3 15) family_db = Inr (1, family_db_duplicate) \<and>
   primary_keys family_db_duplicate \<and>
   length (reminders_for ''b1'' (Date 2025 3 15) family_db_duplicate) = 2 \<and>
   \<not> reminder_key_unique family_db_duplicate \<and>
   fst (create_each late_uuid 0 (Date 2025 3 15)
          (birthdays_to_remind (Date 2025 3 15) family_db_no_reminders) [] family_db) =
     Inr [1, 1, 1] \<and>
   map (\<lambda>b. length (reminders_for (b_id b) (Date 2025 3 15)
          (snd (create_each late_uuid 0 (Date 2025 3 15)
                  (birthdays_to_remind (Date 2025 3 15) family_db_no_reminders) [] family_db))))
     family_birthdays = [2, 2, 2]"
proof (intro conjI)
  show "primary_keys family_db"
    by (simp add: primary_keys_def example_defs)
  show "reminder_key_unique family_db"
    by (simp add: reminder_key_unique_def example_defs)
  show "createReminder ''r4'' ''b1'' (Date 2025 3 15) family_db = Inr (1, family_db_duplicate)"
    by (simp add: createReminder_def family_db_duplicate_def example_defs)
  show "primary_keys family_db_duplicate"
    by (simp add: primary_keys_def family_db_duplicate_def example_defs)
  show "length (reminders_for ''b1'' (Date 2025 3 15) family_db_duplicate) = 2"
    by (simp add: reminders_for_def family_db_duplicate_def example_defs)
  show "\<not> reminder_key_unique family_db_duplicate"
    by (simp add: reminder_key_unique_def family_db_duplicate_def example_defs)
  have sel: "birthdays_to_remind (Date 2025 3 15) family_db_no_reminders = [''b1'', ''b2'', ''b3'']"
    by (simp add: birthdays_to_remind_def format_MM_DD_def example_defs)
  show "fst (create_each late_uuid 0 (Date 2025 3 15)
          (birthdays_to_remind (Date 2025 3 15) family_db_no_reminders) [] family_db) =
     Inr [1, 1, 1]"
    unfolding sel by (simp add: createReminder_def late_uuid_def example_defs)
  show "map (\<lambda>b. length (reminders_for (b_id b) (Date 2025 3 15)
          (snd (create_each late_uuid 0 (Date 2025 3 15)
                  (birthdays_to_remind (Date 2025 3 15) family_db_no_reminders) [] family_db))))
     family_birthdays = [2, 2, 2]"
    unfolding sel
    by (simp add: createReminder_def late_uuid_def reminders_for_def example_defs)
qed

section \<open>Only active groups\<close>

text \<open>
  Claim C10. Every row of \<^verbatim>\<open>getPendingReminders\<close> belongs to a group with the bot
  switched on; every message of the daily check goes to such a group; every reminder that
  \<^verbatim>\<open>createTodaysReminders\<close> adds is for a birthday in such a group; and, with the primary
  keys in force, a reminder whose birthday is in a group with the bot switched off is not
  among the rows returned, sent or not.
\<close>

theorem only_active_groups:
  "(\<forall>p \<in> set (getPendingReminders now date db).
      \<exists>g \<in> set (groups db). g_group_id g = p_group_id p \<and> g_bot_active g) \<and>
   (\<forall>chat \<in> set (map fst (fst (snd (checkTodaysBirthdays now env db)))).
      \<exists>g \<in> set (groups db). g_group_id g = chat \<and> g_bot_active g) \<and>
   (\<forall>r \<in> set (reminders (snd (createTodaysReminders now uuid db))).
      r \<in> set (reminders db) \<or>
      (\<exists>b \<in> set (birthdays db). \<exists>g \<in> set (groups db).
         b_id b = r_birthday_id r \<and> b_group_id b = g_group_id g \<and> g_bot_active g)) \<and>
   (primary_keys db \<longrightarrow>
      (\<forall>r \<in> set (reminders db). \<forall>b \<in> set (birthdays db). \<forall>g \<in> set (groups db).
         r_birthday_id r = b_id b \<and> b_group_id b = g_group_id g \<and> \<not> g_bot_active g \<longrightarrow>
         r_id r \<notin> set (map p_id (getPendingReminders now date db))))"
proof (intro conjI)
  let ?d = "case date of Some d \<Rightarrow> d | None \<Rightarrow> date_of now"
  have active: "\<exists>g \<in> set (groups db). g_group_id g = p_group_id p \<and> g_bot_active g"
    if "p \<in> set (getPendingReminders now date' db)" for p date'
  proof -
    have "p \<in> set (pending_rows (case date' of Some d \<Rightarrow> d | None \<Rightarrow> date_of now) db)"
      using that by (simp add: getPendingReminders_set)
    then obtain r b u g where "g \<in> set (groups db)" "b_group_id b = g_group_id g"
        "g_bot_active g" "p = pending_row_of r b u (Some g)"
      using pending_rows_origin by blast
    then show ?thesis by (auto simp add: pending_row_of_def)
  qed
  show "\<forall>p \<in> set (getPendingReminders now date db).
      \<exists>g \<in> set (groups db). g_group_id g = p_group_id p \<and> g_bot_active g"
    using active by blast
  show "\<forall>chat \<in> set (map fst (fst (snd (checkTodaysBirthdays now env db)))).
      \<exists>g \<in> set (groups db). g_group_id g = chat \<and> g_bot_active g"
  proof
    fix chat
    assume "chat \<in> set (map fst (fst (snd (checkTodaysBirthdays now env db))))"
    then have "chat \<in> set (map p_group_id (getPendingReminders now None db))"
      using process_each_chats [of env 0 "getPendingReminders now None db" db]
      by (auto simp add: checkTodaysBirthdays_def Let_def split: if_splits)
    then obtain p where "p \<in> set (getPendingReminders now None db)" "chat = p_group_id p"
      by auto
    then show "\<exists>g \<in> set (groups db). g_group_id g = chat \<and> g_bot_active g"
      using active [of p None] by simp
  qed
  show "\<forall>r \<in> set (reminders (snd (createTodaysReminders now uuid db))).
      r \<in> set (reminders db) \<or>
      (\<exists>b \<in> set (birthdays db). \<exists>g \<in> set (groups db).
         b_id b = r_birthday_id r \<and> b_group_id b = g_group_id g \<and> g_bot_active g)"
  proof
    fix r
    assume r: "r \<in> set (reminders (snd (createTodaysReminders now uuid db)))"
    obtain new where new:
        "reminders (snd (createTodaysReminders now uuid db)) = reminders db @ new"
        "map r_birthday_id new = take (length new) (birthdays_to_remind (date_of now) db)"
      using createTodaysReminders_effect [of now uuid db] by blast
    show "r \<in> set (reminders db) \<or>
      (\<exists>b \<in> set (birthdays db). \<exists>g \<in> set (groups db).
         b_id b = r_birthday_id r \<and> b_group_id b = g_group_id g \<and> g_bot_active g)"
    proof (cases "r \<in> set (reminders db)")
      case True
      then show ?thesis by simp
    next
      case False
      then have "r \<in> set new" using r new(1) by simp
      then have "r_birthday_id r \<in> set (map r_birthday_id new)" by simp
      then have "r_birthday_id r \<in> set (birthdays_to_remind (date_of now) db)"
        unfolding new(2) by (rule in_set_takeD)
      then show ?thesis
        unfolding birthdays_to_remind_iff by blast
    qed
  qed
  show "primary_keys db \<longrightarrow>
      (\<forall>r \<in> set (reminders db). \<forall>b \<in> set (birthdays db). \<forall>g \<in> set (groups db).
         r_birthday_id r = b_id b \<and> b_group_id b = g_group_id g \<and> \<not> g_bot_active g \<longrightarrow>
         r_id r \<notin> set (map p_id (getPendingReminders now date db)))"
  proof (intro impI ballI)
    fix r b g
    assume pk: "primary_keys db"
      and r: "r \<in> set (reminders db)" and b: "b \<in> set (birthdays db)"
      and g: "g \<in> set (groups db)"
      and h: "r_birthday_id r = b_id b \<and> b_group_id b = g_group_id g \<and> \<not> g_bot_active g"
    show "r_id r \<notin> set (map p_id (getPendingReminders now date db))"
    proof
      assume "r_id r \<in> set (map p_id (getPendingReminders now date db))"
      then obtain p where p: "p \<in> set (pending_rows ?d db)" "p_id p = r_id r"
        by (auto simp add: getPendingReminders_set)
      then obtain r' b' u g' where o: "r' \<in> set (reminders db)" "b' \<in> set (birthdays db)"
          "g' \<in> set (groups db)" "r_birthday_id r' = b_id b'" "b_group_id b' = g_group_id g'"
          "g_bot_active g'" "p = pending_row_of r' b' u (Some g')"
        using pending_rows_origin [of p ?d db] by blast
      have "r_id r' = r_id r" using p(2) o(7) by (simp add: pending_row_of_def)
      then have "r' = r"
        using pk o(1) r by (auto simp add: primary_keys_def intro: distinct_map_same)
      then have "b_id b' = b_id b" using o(4) h by simp
      then have "b' = b"
        using pk o(2) b by (auto simp add: primary_keys_def intro: distinct_map_same)
      then have "g_group_id g' = g_group_id g" using o(5) h by simp
      then have "g' = g"
        using pk o(3) g by (auto simp add: primary_keys_def intro: distinct_map_same)
      then show False using o(6) h by simp
    qed
  qed
qed


theorem only_active_groups_witness:
  "primary_keys family_db_inactive \<and>
   ''r1'' \<notin> set (map p_id (getPendingReminders march_15_midnight None family_db_inactive)) \<and>
   r_sent (hd (reminders family_db_inactive)) = False"
proof -
  let ?r = "\<lparr>r_id = ''r1'', r_birthday_id = ''b1'', r_reminder_date = Date 2025 3 15,
             r_sent = False, r_sent_at = None\<rparr>"
  let ?b = "\<lparr>b_id = ''b1'', b_phone_number = ''111'', b_birth_date = Date 2024 3 15,
             b_group_id = ''g1'', b_created_at = 0, b_updated_at = 0\<rparr>"
  let ?g = "\<lparr>g_group_id = ''g1'', g_group_name = ''Family'', g_bot_active = False\<rparr>"
  have pk: "primary_keys family_db_inactive"
    by (simp add: primary_keys_def example_defs)
  have r: "?r \<in> set (reminders family_db_inactive)"
    and b: "?b \<in> set (birthdays family_db_inactive)"
    and g: "?g \<in> set (groups family_db_inactive)"
    by (simp_all add: example_defs)
  have h: "r_birthday_id ?r = b_id ?b \<and> b_group_id ?b = g_group_id ?g \<and> \<not> g_bot_active ?g"
    by simp
  have "r_id ?r \<notin> set (map p_id (getPendingReminders march_15_midnight None family_db_inactive))"
    using only_active_groups [of march_15_midnight None family_db_inactive] pk r b g h
    by blast
  then have "''r1'' \<notin> set (map p_id (getPendingReminders march_15_midnight None family_db_inactive))"
    by simp
  moreover have "r_sent (hd (reminders family_db_inactive)) = False"
    by (simp add: example_defs)
  ultimately show ?thesis using pk by blast
qed

section \<open>The stored birthday\<close>

lemma parse_strict_Some:
  assumes "parse_strict y sep s = Some d"
  shows "\<exists>d1 d2 m1 m2 dd mm. s = [d1, d2, sep, m1, m2] \<and> two_digits d1 d2 = Some dd \<and>
           two_digits m1 m2 = Some mm \<and> valid_date (Date y mm dd) \<and> d = Date y mm dd"
  using assms unfolding parse_strict_def
  by (auto split: list.splits option.splits if_splits)

lemma first_valid_format_Some:
  assumes "first_valid_format y seps s = Some d"
  shows "\<exists>sep \<in> set seps. parse_strict y sep s = Some d"
  using assms by (induction seps) (auto split: option.splits)

lemma set_year_same_year:
  assumes "valid_date (Date y mm dd)"
  shows "set_year (moment_of_date (Date y mm dd)) y = Moment (Date y mm dd) 0"
  using assms
  by (auto simp add: set_year_def moment_of_date_def valid_date_def daysInMonth_def)

lemma validateDate_Some:
  assumes "validateDate now s = Some t"
  shows "\<exists>d1 d2 c m1 m2 dd mm. s = [d1, d2, c, m1, m2] \<and> two_digits d1 d2 = Some dd \<and>
           two_digits m1 m2 = Some mm \<and> valid_date (Date (year (date_of now)) mm dd) \<and>
           t = Moment (Date (year (date_of now)) mm dd) 0"
proof -
  obtain d where d: "first_valid_format (year (date_of now)) [CHR ''/'', CHR ''-'', CHR ''.''] s = Some d"
      and t: "t = set_year (moment_of_date d) (year (date_of now))"
    using assms by (auto simp add: validateDate_def Let_def split: option.splits)
  obtain sep where "parse_strict (year (date_of now)) sep s = Some d"
    using first_valid_format_Some [OF d] by blast
  then obtain d1 d2 m1 m2 dd mm where p: "s = [d1, d2, sep, m1, m2]" "two_digits d1 d2 = Some dd"
      "two_digits m1 m2 = Some mm" "valid_date (Date (year (date_of now)) mm dd)"
      "d = Date (year (date_of now)) mm dd"
    using parse_strict_Some by blast
  have "t = Moment (Date (year (date_of now)) mm dd) 0"
    using t p(5) set_year_same_year [OF p(4)] by simp
  then show ?thesis using p by blast
qed

lemma addOrUpdateBirthday_stores:
  assumes "addOrUpdateBirthday ts bid phone d gid db = Inr (n, db')"
    and "b \<in> set (birthdays db')" "b_phone_number b = phone" "b_group_id b = gid"
  shows "b_birth_date b = d"
proof (cases "getBirthdayByUserAndGroup phone gid db")
  case None
  then have none: "\<not> (\<exists>x \<in> set (birthdays db). b_phone_number x = phone \<and> b_group_id x = gid)"
    by (simp add: getBirthdayByUserAndGroup_def find_None_iff)
  have "birthdays db' = birthdays db @
      [\<lparr>b_id = bid, b_phone_number = phone, b_birth_date = d, b_group_id = gid,
        b_created_at = ts, b_updated_at = ts\<rparr>]"
    using assms(1) None by (auto simp add: addOrUpdateBirthday_def split: if_splits)
  then have "b = \<lparr>b_id = bid, b_phone_number = phone, b_birth_date = d, b_group_id = gid,
        b_created_at = ts, b_updated_at = ts\<rparr>"
    using assms(2,3,4) none by auto
  then show ?thesis by simp
next
  case (Some existing)
  let ?f = "\<lambda>x. if b_phone_number x = phone \<and> b_group_id x = gid
                then x\<lparr>b_birth_date := d, b_updated_at := ts\<rparr> else x"
  have eq: "birthdays db' = map ?f (birthdays db)"
    using assms(1) Some by (auto simp add: addOrUpdateBirthday_def)
  have "b \<in> set (map ?f (birthdays db))"
    using assms(2) unfolding eq .
  then have "\<exists>x \<in> set (birthdays db). b = ?f x"
    unfolding set_map image_iff .
  then obtain x where x: "b = ?f x"
    by blast
  show ?thesis
  proof (cases "b_phone_number x = phone \<and> b_group_id x = gid")
    case True
    then have "b = x\<lparr>b_birth_date := d, b_updated_at := ts\<rparr>" using x by simp
    then show ?thesis by simp
  next
    case False
    then have "?f x = x" by (rule if_not_P)
    then have "b = x" using x by (simp only:)
    then show ?thesis using False assms(3,4) by simp
  qed
qed

text \<open>
  Claim C9, as the code has it. An accepted input is stored as a full calendar date: its
  month and day are those written in the input, whenever the command runs, and its year is
  the year in which the command runs. After the command every birthday row of the member in
  the group carries that date.
\<close>

theorem stored_birthday_has_current_year:
  "(validateDate now s = Some t \<longrightarrow>
      year (date_of t) = year (date_of now) \<and> ms_of t = 0 \<and> valid_date (date_of t)) \<and>
   (validateDate now s = Some t \<and> validateDate now' s = Some t' \<longrightarrow>
      month (date_of t) = month (date_of t') \<and> day (date_of t) = day (date_of t')) \<and>
   (handleAddBirthday now ts bid phone gid (s # args) db = (db', BirthdayAdded d) \<longrightarrow>
      validateDate now s = Some (Moment d 0) \<and> year d = year (date_of now) \<and>
      (\<forall>b \<in> set (birthdays db').
         b_phone_number b = phone \<and> b_group_id b = gid \<longrightarrow> b_birth_date b = d))"
proof (intro conjI impI)
  assume "validateDate now s = Some t"
  then obtain dd mm where "valid_date (Date (year (date_of now)) mm dd)"
      "t = Moment (Date (year (date_of now)) mm dd) 0"
    using validateDate_Some by blast
  then show "year (date_of t) = year (date_of now)" "ms_of t = 0" "valid_date (date_of t)"
    by simp_all
next
  assume h: "validateDate now s = Some t \<and> validateDate now' s = Some t'"
  obtain d1 d2 c m1 m2 dd mm where a: "s = [d1, d2, c, m1, m2]" "two_digits d1 d2 = Some dd"
      "two_digits m1 m2 = Some mm" "t = Moment (Date (year (date_of now)) mm dd) 0"
    using h validateDate_Some [of now s t] by blast
  obtain e1 e2 c' n1 n2 dd' mm' where b: "s = [e1, e2, c', n1, n2]" "two_digits e1 e2 = Some dd'"
      "two_digits n1 n2 = Some mm'" "t' = Moment (Date (year (date_of now')) mm' dd') 0"
    using h validateDate_Some [of now' s t'] by blast
  have "dd = dd'" "mm = mm'"
    using a(1,2,3) b(1,2,3) by simp_all
  then show "month (date_of t) = month (date_of t')" "day (date_of t) = day (date_of t')"
    using a(4) b(4) by simp_all
next
  assume run: "handleAddBirthday now ts bid phone gid (s # args) db = (db', BirthdayAdded d)"
  then obtain t n where t: "validateDate now s = Some t" "d = date_of t"
      and add: "addOrUpdateBirthday ts bid phone d gid db = Inr (n, db')"
    by (auto simp add: handleAddBirthday_def Let_def split: option.splits sum.splits)
  obtain dd mm where tt: "t = Moment (Date (year (date_of now)) mm dd) 0"
    using validateDate_Some [OF t(1)] by blast
  show "validateDate now s = Some (Moment d 0)"
    using t tt by simp
  show "year d = year (date_of now)"
    using t(2) tt by simp
  show "\<forall>b \<in> set (birthdays db').
         b_phone_number b = phone \<and> b_group_id b = gid \<longrightarrow> b_birth_date b = d"
    using addOrUpdateBirthday_stores [OF add] by blast
qed

lemmas add_eval =
  handleAddBirthday_def validateDate_def parse_strict_def two_digits_def digit_def
  addOrUpdateBirthday_def getBirthdayByUserAndGroup_def set_year_def moment_of_date_def
  valid_date_def daysInMonth_def isLeapYear_def Let_def empty_db_def june_2024_def june_2025_def

lemma add_in_2024:
  "handleAddBirthday june_2024 7 ''b9'' ''111'' ''g1'' [''15/03''] empty_db =
     (empty_db\<lparr>birthdays :=
        [\<lparr>b_id = ''b9'', b_phone_number = ''111'', b_birth_date = Date 2024 3 15,
          b_group_id = ''g1'', b_created_at = 7, b_updated_at = 7\<rparr>]\<rparr>,
      BirthdayAdded (Date 2024 3 15))"
  by (simp add: add_eval)

lemma add_in_2025:
  "handleAddBirthday june_2025 7 ''b9'' ''111'' ''g1'' [''15/03''] empty_db =
     (empty_db\<lparr>birthdays :=
        [\<lparr>b_id = ''b9'', b_phone_number = ''111'', b_birth_date = Date 2025 3 15,
          b_group_id = ''g1'', b_created_at = 7, b_updated_at = 7\<rparr>]\<rparr>,
      BirthdayAdded (Date 2025 3 15))"
  by (simp add: add_eval)

theorem stored_birthday_has_current_year_witness:
  "validateDate june_2024 ''15/03'' = Some (Moment (Date 2024 3 15) 0) \<and>
   validateDate june_2025 ''15/03'' = Some (Moment (Date 2025 3 15) 0) \<and>
   year (date_of (Moment (Date 2024 3 15) 0)) = year (date_of june_2024) \<and>
   month (date_of (Moment (Date 2024 3 15) 0)) = month (date_of (Moment (Date 2025 3 15) 0)) \<and>
   day (date_of (Moment (Date 2024 3 15) 0)) = day (date_of (Moment (Date 2025 3 15) 0))"
proof -
  have v1: "validateDate june_2024 ''15/03'' = Some (Moment (Date 2024 3 15) 0)"
    by (simp add: add_eval)
  have v2: "validateDate june_2025 ''15/03'' = Some (Moment (Date 2025 3 15) 0)"
    by (simp add: add_eval)
  note main = stored_birthday_has_current_year
    [where now = june_2024 and now' = june_2025 and s = "''15/03''"
       and t = "Moment (Date 2024 3 15) 0" and t' = "Moment (Date 2025 3 15) 0"]
  have "year (date_of (Moment (Date 2024 3 15) 0)) = year (date_of june_2024)"
    using main v1 by blast
  moreover have "month (date_of (Moment (Date 2024 3 15) 0)) = month (date_of (Moment (Date 2025 3 15) 0)) \<and>
      day (date_of (Moment (Date 2024 3 15) 0)) = day (date_of (Moment (Date 2025 3 15) 0))"
    using main v1 v2 by blast
  ultimately show ?thesis using v1 v2 by blast
qed

text \<open>
  The claim as stated fails: the same input \<^verbatim>\<open>15/03\<close> by the same member is stored as
  2024-03-15 when the command runs in 2024 and as 2025-03-15 when it runs in 2025, and the
  input \<^verbatim>\<open>29/02\<close> is stored in 2024 and rejected in 2025.
\<close>

theorem stored_birthday_year_counterexample:
  "map b_birth_date
     (birthdays (fst (handleAddBirthday june_2024 7 ''b9'' ''111'' ''g1'' [''15/03''] empty_db))) =
     [Date 2024 3 15] \<and>
   map b_birth_date
     (birthdays (fst (handleAddBirthday june_2025 7 ''b9'' ''111'' ''g1'' [''15/03''] empty_db))) =
     [Date 2025 3 15] \<and>
   handleAddBirthday june_2024 7 ''b9'' ''111'' ''g1'' [''15/03''] empty_db \<noteq>
     handleAddBirthday june_2025 7 ''b9'' ''111'' ''g1'' [''15/03''] empty_db \<and>
   snd (handleAddBirthday june_2024 7 ''b9'' ''111'' ''g1'' [''29/02''] empty_db) =
     BirthdayAdded (Date 2024 2 29) \<and>
   snd (handleAddBirthday june_2025 7 ''b9'' ''111'' ''g1'' [''29/02''] empty_db) =
     InvalidDateFormat"
proof (intro conjI)
  show "map b_birth_date
     (birthdays (fst (handleAddBirthday june_2024 7 ''b9'' ''111'' ''g1'' [''15/03''] empty_db))) =
     [Date 2024 3 15]"
    by (simp add: add_in_2024)
  show "map b_birth_date
     (birthdays (fst (handleAddBirthday june_2025 7 ''b9'' ''111'' ''g1'' [''15/03''] empty_db))) =
     [Date 2025 3 15]"
    by (simp add: add_in_2025)
  show "handleAddBirthday june_2024 7 ''b9'' ''111'' ''g1'' [''15/03''] empty_db \<noteq>
     handleAddBirthday june_2025 7 ''b9'' ''111'' ''g1'' [''15/03''] empty_db"
    by (simp add: add_in_2024 add_in_2025)
  show "snd (handleAddBirthday june_2024 7 ''b9'' ''111'' ''g1'' [''29/02''] empty_db) =
     BirthdayAdded (Date 2024 2 29)"
    by (simp add: add_eval)
  show "snd (handleAddBirthday june_2025 7 ''b9'' ''111'' ''g1'' [''29/02''] empty_db) =
     InvalidDateFormat"
    by (simp add: add_eval)
qed

end
